theory Spec2Isabelle
  imports Main "HOL-Library.AList"
begin

section \<open>The document tree\<close>

text \<open>
  The project file is an XML document handled through the \<^verbatim>\<open>xmldom\<close> package, which is not
  part of the sources; the operations below are its DOM operations as \<^verbatim>\<open>project.ts\<close> uses
  them (the Document Adapter of the specification, section 4.1). A document is represented
  by its root element (\<^verbatim>\<open>documentElement\<close>). A node of the tree is identified by its path
  from the root, the list of child indices. The program looks a node up and changes the
  tree at that node at once, and it asks for the list of elements again after every
  change, so a path is never used on a tree other than the one it was taken from.
\<close>

datatype node = Element string "(string \<times> string) list" "node list" | Text string

type_synonym path = "nat list"

fun childNodes :: "node \<Rightarrow> node list" where
  "childNodes (Element t as cs) = cs"
| "childNodes (Text s) = []"

text \<open>\<^verbatim>\<open>nodeValue\<close> is the data of a text node and \<^verbatim>\<open>null\<close> (here \<open>None\<close>) for an element.\<close>

fun nodeValue :: "node \<Rightarrow> string option" where
  "nodeValue (Text s) = Some s"
| "nodeValue (Element t as cs) = None"

fun hasTag :: "string \<Rightarrow> node \<Rightarrow> bool" where
  "hasTag t (Element g as cs) = (g = t)"
| "hasTag t (Text s) = False"

text \<open>\<^verbatim>\<open>getAttribute\<close> of xmldom returns the empty string for an attribute that is absent.\<close>

fun getAttribute :: "node \<Rightarrow> string \<Rightarrow> string" where
  "getAttribute (Element t as cs) a = (case map_of as a of Some v \<Rightarrow> v | None \<Rightarrow> [])"
| "getAttribute (Text s) a = []"

fun setAttribute :: "string \<Rightarrow> string \<Rightarrow> node \<Rightarrow> node" where
  "setAttribute a v (Element t as cs) = Element t (AList.update a v as) cs"
| "setAttribute a v (Text s) = Text s"

definition createElement :: "string \<Rightarrow> node" where
  "createElement t = Element t [] []"

definition createTextNode :: "string \<Rightarrow> node" where
  "createTextNode s = Text s"

fun appendChild :: "node \<Rightarrow> node \<Rightarrow> node" where
  "appendChild (Element t as cs) c = Element t as (cs @ [c])"
| "appendChild (Text s) c = Text s"

text \<open>
  \<^verbatim>\<open>e.getElementsByTagName(t)\<close>: the descendants of \<open>e\<close> (not \<open>e\<close> itself) that are elements
  with tag \<open>t\<close>, in document order, each with its path below \<open>e\<close>.
\<close>

fun getElementsByTagName :: "string \<Rightarrow> node \<Rightarrow> (path \<times> node) list"
  and elementsOfChildren :: "string \<Rightarrow> nat \<Rightarrow> node list \<Rightarrow> (path \<times> node) list" where
  "getElementsByTagName t (Text s) = []"
| "getElementsByTagName t (Element g as cs) = elementsOfChildren t 0 cs"
| "elementsOfChildren t i [] = []"
| "elementsOfChildren t i (c # cs) =
     (if hasTag t c then [([i], c)] else [])
     @ map (\<lambda>(p, n). (i # p, n)) (getElementsByTagName t c)
     @ elementsOfChildren t (Suc i) cs"

text \<open>
  \<^verbatim>\<open>doc.getElementsByTagName(t)\<close> on the document itself also finds the root element.
\<close>

definition document_getElementsByTagName :: "string \<Rightarrow> node \<Rightarrow> node list" where
  "document_getElementsByTagName t doc =
     (if hasTag t doc then [doc] else []) @ map snd (getElementsByTagName t doc)"

text \<open>\<^verbatim>\<open>g.appendChild(c)\<close> for the node \<open>g\<close> at path \<open>p\<close> of the tree.\<close>

fun appendChildAt :: "path \<Rightarrow> node \<Rightarrow> node \<Rightarrow> node" where
  "appendChildAt [] c n = appendChild n c"
| "appendChildAt (i # p) c (Element t as cs) =
     (if i < length cs then Element t as (cs[i := appendChildAt p c (cs ! i)])
      else Element t as cs)"
| "appendChildAt (i # p) c (Text s) = Text s"

text \<open>
  \<^verbatim>\<open>root.replaceChild(newChild, oldChild)\<close>, the old node given by its path below the root.
  xmldom does not ask whether the old node is a child of the root: it puts the new node
  between the two siblings of the old node, makes the new node the first child of the
  root when the old node has no previous sibling, and the last child of the root when the
  old node has no next sibling. The model gives the tree that a traversal from the root by
  first child and next sibling finds afterwards:
  \<^item> for a child of the root, the new node is in the place of the old one;
  \<^item> for a node further down that has a previous sibling, the new node is in the place of
    the old one, below the parent of the old one;
  \<^item> for a node further down that is the first child of its parent, the children of the
    root are the new node and, after it, the siblings that followed the old node.

  \<open>relinkBelow\<close> looks for the old node below a node other than the root and gives
  either that node with the replacement made below it (\<open>Inl\<close>) or the new chain of
  children for the root (\<open>Inr\<close>). \<open>None\<close> is a path that leads to no node; no path that
  \<^verbatim>\<open>getElementsByTagName\<close> gives is of that kind. The last-child pointer that xmldom keeps
  for every element is not part of the tree: an append is always made at the end of the
  children that the traversal finds.
\<close>

fun relinkBelow :: "path \<Rightarrow> node \<Rightarrow> node \<Rightarrow> (node + node list) option" where
  "relinkBelow [k] new (Element t as xs) =
     (if k < length xs
      then (if k = 0 then Some (Inr (new # drop 1 xs)) else Some (Inl (Element t as (xs[k := new]))))
      else None)"
| "relinkBelow (k # j # q) new (Element t as xs) =
     (if k < length xs
      then (case relinkBelow (j # q) new (xs ! k) of
              None \<Rightarrow> None
            | Some (Inl x) \<Rightarrow> Some (Inl (Element t as (xs[k := x])))
            | Some (Inr chain) \<Rightarrow> Some (Inr chain))
      else None)"
| "relinkBelow p new n = None"

fun replaceChild :: "node \<Rightarrow> node \<Rightarrow> path \<Rightarrow> node option" where
  "replaceChild (Element t as cs) new [j] =
     (if j < length cs then Some (Element t as (cs[j := new])) else None)"
| "replaceChild (Element t as cs) new (i # k # q) =
     (if i < length cs
      then (case relinkBelow (k # q) new (cs ! i) of
              None \<Rightarrow> None
            | Some (Inl x) \<Rightarrow> Some (Element t as (cs[i := x]))
            | Some (Inr chain) \<Rightarrow> Some (Element t as chain))
      else None)"
| "replaceChild n new p = None"

section \<open>Documents as texts\<close>

text \<open>
  Modelled from the spec: the parser and the serializer of the Document Adapter (section
  4.1: \<^verbatim>\<open>parse(bytes) -> Tree, fails with ParseError on malformed input\<close> and
  \<^verbatim>\<open>serialize(tree) -> bytes\<close>) are \<^verbatim>\<open>DOMParser\<close> and \<^verbatim>\<open>XMLSerializer\<close> of xmldom, which are
  not part of the sources. They are modelled for the documents of section 6 of the
  specification: elements with attributes and text, written with an opening and a
  closing tag for every element and the values of attributes in double quotes, without
  entities, comments or declarations.
\<close>

definition nameChar :: "char \<Rightarrow> bool" where
  "nameChar c = (c \<notin> set [CHR '' '', CHR ''='', CHR ''<'', CHR ''>'', CHR ''/'', CHR 0x22])"

definition quote :: char where
  "quote = CHR 0x22"

definition serializeAttribute :: "string \<times> string \<Rightarrow> string" where
  "serializeAttribute av = (case av of (a, v) \<Rightarrow> '' '' @ a @ ''='' @ [quote] @ v @ [quote])"

fun serializeNode :: "node \<Rightarrow> string" where
  "serializeNode (Text s) = s"
| "serializeNode (Element t as cs) =
     ''<'' @ t @ concat (map serializeAttribute as) @ ''>''
     @ concat (map serializeNode cs) @ ''</'' @ t @ ''>''"

text \<open>
  The reader. A list of nodes ends at the end of the text or at a closing tag; a text
  node runs up to the next \<^verbatim>\<open><\<close>; an element is its name, its attributes, \<^verbatim>\<open>>\<close>, its
  children and its closing tag. The number bounds the nesting of the calls; the length of
  the text is always enough. A document is one element with nothing after it.
\<close>

definition stripPrefix :: "string \<Rightarrow> string \<Rightarrow> string option" where
  "stripPrefix p s = (if take (length p) s = p then Some (drop (length p) s) else None)"

fun parseAttributes :: "nat \<Rightarrow> string \<Rightarrow> ((string \<times> string) list \<times> string) option" where
  "parseAttributes 0 s = None"
| "parseAttributes (Suc n) s =
     (case s of
        [] \<Rightarrow> None
      | c # r \<Rightarrow>
          if c = CHR ''>'' then Some ([], r)
          else if c = CHR '' '' then
            (let a = takeWhile nameChar r; r1 = dropWhile nameChar r
             in if a = [] then None
                else (case stripPrefix (''='' @ [quote]) r1 of
                        None \<Rightarrow> None
                      | Some r2 \<Rightarrow>
                          (let v = takeWhile (\<lambda>x. x \<noteq> quote) r2;
                               r3 = dropWhile (\<lambda>x. x \<noteq> quote) r2
                           in case r3 of
                                [] \<Rightarrow> None
                              | q # r4 \<Rightarrow>
                                  (case parseAttributes n r4 of
                                     None \<Rightarrow> None
                                   | Some (as, rest) \<Rightarrow> Some ((a, v) # as, rest)))))
          else None)"

fun parseNodes :: "nat \<Rightarrow> string \<Rightarrow> (node list \<times> string) option" where
  "parseNodes 0 s = None"
| "parseNodes (Suc n) s =
     (case s of
        [] \<Rightarrow> Some ([], [])
      | c # r \<Rightarrow>
          if c = CHR ''<'' then
            (if take 1 r = ''/'' then Some ([], s)
             else
               (let t = takeWhile nameChar r; r1 = dropWhile nameChar r
                in if t = [] then None
                   else (case parseAttributes (Suc (length r1)) r1 of
                           None \<Rightarrow> None
                         | Some (as, r2) \<Rightarrow>
                             (case parseNodes n r2 of
                                None \<Rightarrow> None
                              | Some (cs, r3) \<Rightarrow>
                                  (case stripPrefix (''</'' @ t @ ''>'') r3 of
                                     None \<Rightarrow> None
                                   | Some r4 \<Rightarrow>
                                       (case parseNodes n r4 of
                                          None \<Rightarrow> None
                                        | Some (siblings, rest) \<Rightarrow>
                                            Some (Element t as cs # siblings, rest)))))))
          else
            (let d = takeWhile (\<lambda>x. x \<noteq> CHR ''<'') s; r1 = dropWhile (\<lambda>x. x \<noteq> CHR ''<'') s
             in case parseNodes n r1 of
                  None \<Rightarrow> None
                | Some (siblings, rest) \<Rightarrow> Some (Text d # siblings, rest)))"

definition parseDocument :: "string \<Rightarrow> node option" where
  "parseDocument s =
     (case parseNodes (Suc (length s)) s of
        Some ([Element t as cs], []) \<Rightarrow> Some (Element t as cs)
      | _ \<Rightarrow> None)"

text \<open>
  The documents that the writer writes so that the reader reads them back: names are not
  empty and made of name characters, a value has no double quote, a text is not empty and
  has no \<^verbatim>\<open><\<close>, and no two texts are next to each other. \<open>depthNodes\<close> is the number of
  nested calls that the reader needs for a list of nodes.
\<close>

fun isText :: "node \<Rightarrow> bool" where
  "isText (Text s) = True"
| "isText (Element t as cs) = False"

definition wellFormedName :: "string \<Rightarrow> bool" where
  "wellFormedName a = (a \<noteq> [] \<and> list_all nameChar a)"

definition wellFormedAttribute :: "string \<times> string \<Rightarrow> bool" where
  "wellFormedAttribute av =
     (case av of (a, v) \<Rightarrow>
        wellFormedName a \<and> list_all (\<lambda>x. x \<noteq> quote) v)"

fun wellFormedNode :: "node \<Rightarrow> bool" and wellFormedNodes :: "node list \<Rightarrow> bool" where
  "wellFormedNode (Text s) = (s \<noteq> [] \<and> list_all (\<lambda>x. x \<noteq> CHR ''<'') s)"
| "wellFormedNode (Element t as cs) =
     (wellFormedName t \<and> list_all wellFormedAttribute as \<and> wellFormedNodes cs)"
| "wellFormedNodes [] = True"
| "wellFormedNodes (c # cs) =
     (wellFormedNode c \<and> wellFormedNodes cs
      \<and> (case cs of [] \<Rightarrow> True | d # ds \<Rightarrow> \<not> (isText c \<and> isText d)))"

fun depthNode :: "node \<Rightarrow> nat" and depthNodes :: "node list \<Rightarrow> nat" where
  "depthNode (Text s) = 0"
| "depthNode (Element t as cs) = depthNodes cs"
| "depthNodes [] = 1"
| "depthNodes (c # cs) = Suc (max (depthNode c) (depthNodes cs))"

section \<open>Constants, host functions and errors\<close>

text \<open>
  The module \<^verbatim>\<open>../common/constants\<close> is not part of the sources. Every constant of it that
  \<^verbatim>\<open>project.ts\<close> reads is a field of the record below and the model takes the record as a
  parameter.
\<close>

datatype EntryType = File | Folder | DatabaseReference

datatype DatabaseReferenceLocation = sameDatabase | differentDatabaseSameServer

record constants =
  ItemGroup :: string
  Build :: string
  Folder :: string
  Include :: string
  Import :: string
  Project :: string
  Condition :: string
  SqlCmdVariable :: string
  DefaultValue :: string
  ArtifactReference :: string
  SuppressMissingDependenciesErrors :: string
  DatabaseVariableLiteralValue :: string
  DSP :: string
  PackageReference :: string
  Version :: string
  PrivateAssets :: string
  All :: string
  NETFrameworkAssembly :: string
  VersionNumber :: string
  SqlDbPresentCondition :: string
  SqlDbNotPresentCondition :: string
  RoundTripSqlDbPresentCondition :: string
  RoundTripSqlDbNotPresentCondition :: string
  SqlDbTargets :: string
  MsBuildtargets :: string
  NetCoreCondition :: string
  NetCoreTargets :: string
  MicrosoftDatatoolsSchemaSqlSql :: string
  databaseSchemaProvider :: string

text \<open>
  The functions of the host that \<^verbatim>\<open>project.ts\<close> calls and that are not part of the sources:
  the parser and the serializer of xmldom (\<open>None\<close> is a parse error) and \<^verbatim>\<open>path.join\<close>
  and \<^verbatim>\<open>path.dirname\<close> of Node. A \<^verbatim>\<open>Uri\<close> is represented by its file-system path.
\<close>

record host =
  parseFromString :: "string \<Rightarrow> node option"
  serializeToString :: "node \<Rightarrow> string"
  path_join :: "string list \<Rightarrow> string"
  path_dirname :: "string \<Rightarrow> string"


text \<open>
  The failures of the program. \<open>FileNotFound p\<close> is \<^verbatim>\<open>new Error(constants.noFileExist(p))\<close>,
  \<open>InvalidSchemaProvider\<close> is \<^verbatim>\<open>new Error(constants.invalidDataSchemaProvider)\<close>, \<open>TypeError\<close>
  is the error of JavaScript for a property read on \<^verbatim>\<open>undefined\<close> or \<^verbatim>\<open>null\<close>, \<open>IOError\<close> is a
  rejected call of \<^verbatim>\<open>fs\<close>, and \<open>ParseError\<close> a document that does not parse.
  \<open>NotFoundError\<close> ends a run in which \<^verbatim>\<open>replaceChild\<close> is handed a node that is not in the
  tree any more (see the loop of the round-trip update). \<open>MissingDefaultValue\<close> is a
  failure that the specification names (section 7); no statement of \<^verbatim>\<open>project.ts\<close> raises
  it.
\<close>

datatype error =
  ParseError | MissingDefaultValue | InvalidSchemaProvider | FileNotFound string
  | IOError | TypeError | NotFoundError

section \<open>The file system\<close>

text \<open>
  The file system maps a path to a file with its content or to a directory. The calls of
  \<^verbatim>\<open>fs\<close> and \<^verbatim>\<open>utils.exists\<close> that the program makes are modelled on the named path alone
  (the ancestors of a path are not tracked): a read or a copy fails on a path that holds
  no file, a write or a copy fails on a target that is a directory, and a recursive
  \<^verbatim>\<open>mkdir\<close> fails on a path that holds a file. A failed call leaves the file system as it
  was.
\<close>

datatype fsentry = FsFile string | FsDir

type_synonym filesystem = "string \<rightharpoonup> fsentry"

definition exists_path :: "filesystem \<Rightarrow> string \<Rightarrow> bool" where
  "exists_path fs p = (fs p \<noteq> None)"

definition readFile :: "string \<Rightarrow> filesystem \<Rightarrow> error + string" where
  "readFile p fs = (case fs p of Some (FsFile c) \<Rightarrow> Inr c | Some FsDir \<Rightarrow> Inl IOError | None \<Rightarrow> Inl IOError)"

definition writeFile :: "string \<Rightarrow> string \<Rightarrow> filesystem \<Rightarrow> (error + unit) \<times> filesystem" where
  "writeFile p c fs =
     (case fs p of Some FsDir \<Rightarrow> (Inl IOError, fs)
      | Some (FsFile old) \<Rightarrow> (Inr (), fs(p \<mapsto> FsFile c))
      | None \<Rightarrow> (Inr (), fs(p \<mapsto> FsFile c)))"

definition copyFile :: "string \<Rightarrow> string \<Rightarrow> filesystem \<Rightarrow> (error + unit) \<times> filesystem" where
  "copyFile src dst fs =
     (case fs src of
        Some (FsFile c) \<Rightarrow>
          (case fs dst of Some FsDir \<Rightarrow> (Inl IOError, fs)
           | Some (FsFile old) \<Rightarrow> (Inr (), fs(dst \<mapsto> FsFile c))
           | None \<Rightarrow> (Inr (), fs(dst \<mapsto> FsFile c)))
      | Some FsDir \<Rightarrow> (Inl IOError, fs)
      | None \<Rightarrow> (Inl IOError, fs))"

definition mkdir_recursive :: "string \<Rightarrow> filesystem \<Rightarrow> (error + unit) \<times> filesystem" where
  "mkdir_recursive p fs =
     (case fs p of Some (FsFile c) \<Rightarrow> (Inl IOError, fs)
      | Some FsDir \<Rightarrow> (Inr (), fs)
      | None \<Rightarrow> (Inr (), fs(p \<mapsto> FsDir)))"

section \<open>The project\<close>

text \<open>
  \<^verbatim>\<open>ProjectEntry\<close> and its subclass \<^verbatim>\<open>DatabaseReferenceProjectEntry\<close>: the two fields of the
  subclass are \<open>None\<close> (\<^verbatim>\<open>undefined\<close>) on an entry of the base class, which is what a read
  of them yields after the unchecked cast of \<^verbatim>\<open>addToProjFile\<close>.
\<close>

record ProjectEntry =
  fsUri :: string
  relativePath :: string
  type :: EntryType
  databaseLocation :: "DatabaseReferenceLocation option"
  name :: "string option"

text \<open>
  The fields of \<^verbatim>\<open>Project\<close> that the modelled methods read or write. \<open>projFileXmlDoc\<close> is
  \<open>None\<close> (\<^verbatim>\<open>undefined\<close>) until the file is read. A value of \<open>sqlCmdVariables\<close> is
  \<open>None\<close> when the program stored \<^verbatim>\<open>null\<close>.
\<close>

record Project =
  projectFilePath :: string
  files :: "ProjectEntry list"
  importedTargets :: "string list"
  sqlCmdVariables :: "string \<rightharpoonup> string option"
  projFileXmlDoc :: "node option"

type_synonym state = "Project \<times> filesystem"

text \<open>The constructor: \<^verbatim>\<open>new Project(projectFilePath)\<close>.\<close>

definition newProject :: "string \<Rightarrow> Project" where
  "newProject p =
     \<lparr>projectFilePath = p, files = [], importedTargets = [], sqlCmdVariables = Map.empty,
      projFileXmlDoc = None\<rparr>"

definition projectFolderPath :: "host \<Rightarrow> Project \<Rightarrow> string" where
  "projectFolderPath H P = path_dirname H (projectFilePath P)"

definition createProjectEntry :: "host \<Rightarrow> Project \<Rightarrow> string \<Rightarrow> EntryType \<Rightarrow> ProjectEntry" where
  "createProjectEntry H P rel entryType =
     \<lparr>fsUri = path_join H [projectFolderPath H P, rel], relativePath = rel,
      type = entryType, databaseLocation = None, name = None\<rparr>"

definition newDatabaseReferenceProjectEntry ::
  "string \<Rightarrow> DatabaseReferenceLocation \<Rightarrow> string option \<Rightarrow> ProjectEntry" where
  "newDatabaseReferenceProjectEntry uri loc nm =
     \<lparr>fsUri = uri, relativePath = [], type = DatabaseReference,
      databaseLocation = Some loc, name = nm\<rparr>"

subsection \<open>Writing the document\<close>

definition serializeToProjFile :: "host \<Rightarrow> node \<Rightarrow> state \<Rightarrow> (error + unit) \<times> state" where
  "serializeToProjFile H projFileContents s =
     (case s of (P, fs) \<Rightarrow>
        (case writeFile (projectFilePath P) (serializeToString H projFileContents) fs of
           (r, fs') \<Rightarrow> (r, P, fs')))"

text \<open>
  \<^verbatim>\<open>findOrCreateItemGroup\<close> returns the document, with a new item group appended to the root
  when none was found, and the path of the group. The search runs only for a tag that is
  truthy: given and not the empty string.
\<close>

definition findOrCreateItemGroup :: "constants \<Rightarrow> string option \<Rightarrow> node \<Rightarrow> node \<times> path" where
  "findOrCreateItemGroup K containedTag doc =
     (let outputItemGroup =
        (case containedTag of
           None \<Rightarrow> None
         | Some t \<Rightarrow>
             if t = [] then None
             else find (\<lambda>(p, g). getElementsByTagName t g \<noteq> [])
                    (getElementsByTagName (ItemGroup K) doc))
      in case outputItemGroup of
           Some (p, g) \<Rightarrow> (doc, p)
         | None \<Rightarrow> (appendChild doc (createElement (ItemGroup K)), [length (childNodes doc)]))"

definition addFileToProjFile :: "constants \<Rightarrow> string \<Rightarrow> node \<Rightarrow> node" where
  "addFileToProjFile K p doc =
     (let newFileNode = setAttribute (Include K) p (createElement (Build K))
      in case findOrCreateItemGroup K (Some (Build K)) doc of
           (doc', g) \<Rightarrow> appendChildAt g newFileNode doc')"

definition addFolderToProjFile :: "constants \<Rightarrow> string \<Rightarrow> node \<Rightarrow> node" where
  "addFolderToProjFile K p doc =
     (let newFolderNode = setAttribute (Include K) p (createElement (constants.Folder K))
      in case findOrCreateItemGroup K (Some (constants.Folder K)) doc of
           (doc', g) \<Rightarrow> appendChildAt g newFolderNode doc')"

text \<open>
  The reference element that \<^verbatim>\<open>addDatabaseReferenceToProjFile\<close> builds before it looks for
  an item group. \<^verbatim>\<open>createTextNode(entry.name)\<close> with a name that is \<^verbatim>\<open>undefined\<close> makes the
  text \<^verbatim>\<open>undefined\<close>.
\<close>

definition referenceNode :: "constants \<Rightarrow> ProjectEntry \<Rightarrow> node" where
  "referenceNode K entry =
     (let n0 = createElement (ArtifactReference K);
          n1 = setAttribute (Condition K) (NetCoreCondition K) n0;
          n2 = setAttribute (Include K) (fsUri entry) n1;
          suppressMissingDependenciesErrorNode =
            appendChild (createElement (SuppressMissingDependenciesErrors K))
              (createTextNode ''False'');
          n3 = appendChild n2 suppressMissingDependenciesErrorNode
      in if databaseLocation entry = Some differentDatabaseSameServer
         then appendChild n3
                (appendChild (createElement (DatabaseVariableLiteralValue K))
                   (createTextNode (case name entry of Some n \<Rightarrow> n | None \<Rightarrow> ''undefined'')))
         else n3)"

definition addDatabaseReferenceToProjFile :: "constants \<Rightarrow> ProjectEntry \<Rightarrow> node \<Rightarrow> node" where
  "addDatabaseReferenceToProjFile K entry doc =
     (case findOrCreateItemGroup K None doc of
        (doc', g) \<Rightarrow> appendChildAt g (referenceNode K entry) doc')"

text \<open>
  \<^verbatim>\<open>addToProjFile\<close>: the case of a file ends with \<^verbatim>\<open>break\<close>; the case of a folder has no
  \<^verbatim>\<open>break\<close> and runs on into the case of a database reference.
\<close>

definition addToProjFile :: "host \<Rightarrow> constants \<Rightarrow> ProjectEntry \<Rightarrow> state \<Rightarrow> (error + unit) \<times> state" where
  "addToProjFile H K entry s =
     (case s of (P, fs) \<Rightarrow>
        (case projFileXmlDoc P of
           None \<Rightarrow> (Inl TypeError, P, fs)
         | Some doc \<Rightarrow>
             (let doc' =
                (case type entry of
                   File \<Rightarrow> addFileToProjFile K (relativePath entry) doc
                 | EntryType.Folder \<Rightarrow>
                     addDatabaseReferenceToProjFile K entry
                       (addFolderToProjFile K (relativePath entry) doc)
                 | DatabaseReference \<Rightarrow> addDatabaseReferenceToProjFile K entry doc)
              in serializeToProjFile H doc' (P\<lparr>projFileXmlDoc := Some doc'\<rparr>, fs))))"

subsection \<open>Adding items\<close>

definition addFolderItem :: "host \<Rightarrow> constants \<Rightarrow> string \<Rightarrow> state \<Rightarrow> (error + ProjectEntry) \<times> state" where
  "addFolderItem H K relativeFolderPath s =
     (case s of (P, fs) \<Rightarrow>
        (let absoluteFolderPath = path_join H [projectFolderPath H P, relativeFolderPath]
         in case (if \<not> exists_path fs absoluteFolderPath
                  then mkdir_recursive absoluteFolderPath fs else (Inr (), fs)) of
              (Inl e, fs1) \<Rightarrow> (Inl e, P, fs1)
            | (Inr u, fs1) \<Rightarrow>
                (let folderEntry = createProjectEntry H P relativeFolderPath EntryType.Folder;
                     P1 = P\<lparr>files := files P @ [folderEntry]\<rparr>
                 in case addToProjFile H K folderEntry (P1, fs1) of
                      (Inl e, s') \<Rightarrow> (Inl e, s')
                    | (Inr u', s') \<Rightarrow> (Inr folderEntry, s'))))"

text \<open>
  \<^verbatim>\<open>addScriptItem\<close>: the contents are written only when they are truthy, that is given and
  not the empty string.
\<close>

definition addScriptItem ::
  "host \<Rightarrow> constants \<Rightarrow> string \<Rightarrow> string option \<Rightarrow> state \<Rightarrow> (error + ProjectEntry) \<times> state" where
  "addScriptItem H K relativeFilePath contents s =
     (case s of (P, fs) \<Rightarrow>
        (let absoluteFilePath = path_join H [projectFolderPath H P, relativeFilePath]
         in case (case contents of
                    None \<Rightarrow> (Inr (), fs)
                  | Some c \<Rightarrow>
                      if c = [] then (Inr (), fs)
                      else (case mkdir_recursive (path_dirname H absoluteFilePath) fs of
                              (Inl e, fs0) \<Rightarrow> (Inl e, fs0)
                            | (Inr u, fs0) \<Rightarrow> writeFile absoluteFilePath c fs0)) of
              (Inl e, fs1) \<Rightarrow> (Inl e, P, fs1)
            | (Inr u, fs1) \<Rightarrow>
                if \<not> exists_path fs1 absoluteFilePath
                then (Inl (FileNotFound absoluteFilePath), P, fs1)
                else
                  (let fileEntry = createProjectEntry H P relativeFilePath File;
                       P1 = P\<lparr>files := files P @ [fileEntry]\<rparr>
                   in case addToProjFile H K fileEntry (P1, fs1) of
                        (Inl e, s') \<Rightarrow> (Inl e, s')
                      | (Inr u', s') \<Rightarrow> (Inr fileEntry, s'))))"

definition addDatabaseReference ::
  "host \<Rightarrow> constants \<Rightarrow> string \<Rightarrow> DatabaseReferenceLocation \<Rightarrow> string option \<Rightarrow> state
   \<Rightarrow> (error + unit) \<times> state" where
  "addDatabaseReference H K uri location databaseName s =
     addToProjFile H K (newDatabaseReferenceProjectEntry uri location databaseName) s"

subsection \<open>Reading the project file\<close>

text \<open>
  The three loops of \<^verbatim>\<open>readProjFile\<close> ask the document for the list of elements again at
  every step; they do not change the document, so each is a traversal of one list. An
  item group gives its build items first, then its folder items.
\<close>

definition itemGroupEntries :: "host \<Rightarrow> constants \<Rightarrow> Project \<Rightarrow> node \<Rightarrow> ProjectEntry list" where
  "itemGroupEntries H K P itemGroup =
     map (\<lambda>(p, b). createProjectEntry H P (getAttribute b (Include K)) File)
       (getElementsByTagName (Build K) itemGroup)
     @ map (\<lambda>(p, f). createProjectEntry H P (getAttribute f (Include K)) EntryType.Folder)
         (getElementsByTagName (constants.Folder K) itemGroup)"

text \<open>
  The loop over the variable declarations. The read
  \<^verbatim>\<open>getElementsByTagName(constants.DefaultValue)[0].childNodes[0].nodeValue\<close> is a property
  read on \<^verbatim>\<open>undefined\<close> when the first or the second list is empty; the variables stored by
  the earlier steps stay.
\<close>

fun readSqlCmdVariables ::
  "constants \<Rightarrow> node list \<Rightarrow> (string \<rightharpoonup> string option)
   \<Rightarrow> (error + unit) \<times> (string \<rightharpoonup> string option)" where
  "readSqlCmdVariables K [] vars = (Inr (), vars)"
| "readSqlCmdVariables K (sqlCmdVar # rest) vars =
     (let varName = getAttribute sqlCmdVar (Include K)
      in case getElementsByTagName (DefaultValue K) sqlCmdVar of
           [] \<Rightarrow> (Inl TypeError, vars)
         | (p, d) # ds \<Rightarrow>
             (case childNodes d of
                [] \<Rightarrow> (Inl TypeError, vars)
              | c # cs \<Rightarrow> readSqlCmdVariables K rest (vars(varName \<mapsto> nodeValue c))))"

definition readProjFile :: "host \<Rightarrow> constants \<Rightarrow> state \<Rightarrow> (error + unit) \<times> state" where
  "readProjFile H K s =
     (case s of (P, fs) \<Rightarrow>
        (case readFile (projectFilePath P) fs of
           Inl e \<Rightarrow> (Inl e, P, fs)
         | Inr projFileText \<Rightarrow>
             (case parseFromString H projFileText of
                None \<Rightarrow> (Inl ParseError, P, fs)
              | Some doc \<Rightarrow>
                  (let P1 = P\<lparr>projFileXmlDoc := Some doc\<rparr>;
                       P2 = P1\<lparr>files := files P1
                              @ concat (map (\<lambda>(p, itemGroup). itemGroupEntries H K P1 itemGroup)
                                  (getElementsByTagName (ItemGroup K) doc))\<rparr>;
                       P3 = P2\<lparr>importedTargets := importedTargets P2
                              @ map (\<lambda>(p, importTarget). getAttribute importTarget (constants.Project K))
                                  (getElementsByTagName (Import K) doc)\<rparr>
                   in case readSqlCmdVariables K
                             (map snd (getElementsByTagName (SqlCmdVariable K) doc))
                             (sqlCmdVariables P3) of
                        (r, vars) \<Rightarrow> (r, P3\<lparr>sqlCmdVariables := vars\<rparr>, fs)))))"

subsection \<open>The target platform\<close>

datatype TargetPlatform =
  Sql90 | Sql100 | Sql110 | Sql120 | Sql130 | Sql140 | Sql150 | SqlAzureV12

fun TargetPlatform_value :: "TargetPlatform \<Rightarrow> string" where
  "TargetPlatform_value Sql90 = ''90''"
| "TargetPlatform_value Sql100 = ''100''"
| "TargetPlatform_value Sql110 = ''110''"
| "TargetPlatform_value Sql120 = ''120''"
| "TargetPlatform_value Sql130 = ''130''"
| "TargetPlatform_value Sql140 = ''140''"
| "TargetPlatform_value Sql150 = ''150''"
| "TargetPlatform_value SqlAzureV12 = ''AzureV12''"

text \<open>\<^verbatim>\<open>Object.values(TargetPlatform)\<close>.\<close>

definition TargetPlatform_values :: "string list" where
  "TargetPlatform_values =
     map TargetPlatform_value [Sql90, Sql100, Sql110, Sql120, Sql130, Sql140, Sql150, SqlAzureV12]"

text \<open>
  \<^verbatim>\<open>getMasterDacpac\<close>. \<^verbatim>\<open>s.substring(n)\<close> is \<open>drop n s\<close>, and \<^verbatim>\<open>s.substring(0, m)\<close> with
  \<open>m\<close> the difference of two lengths is \<open>take\<close> of the truncated difference, since
  \<^verbatim>\<open>substring\<close> reads a negative index as 0. The result is the path given to \<^verbatim>\<open>Uri.parse\<close>.
\<close>

definition getMasterDacpac :: "host \<Rightarrow> constants \<Rightarrow> Project \<Rightarrow> error + string" where
  "getMasterDacpac H K P =
     (case projFileXmlDoc P of
        None \<Rightarrow> Inl TypeError
      | Some doc \<Rightarrow>
          (case document_getElementsByTagName (DSP K) doc of
             [] \<Rightarrow> Inl InvalidSchemaProvider
           | d # ds \<Rightarrow>
               if ds \<noteq> [] then Inl InvalidSchemaProvider
               else
                 (case childNodes d of
                    [] \<Rightarrow> Inl InvalidSchemaProvider
                  | c # cs \<Rightarrow>
                      if cs \<noteq> [] then Inl InvalidSchemaProvider
                      else
                        (case nodeValue c of
                           None \<Rightarrow> Inl TypeError
                         | Some dsp \<Rightarrow>
                             (let version0 = drop (length (MicrosoftDatatoolsSchemaSqlSql K)) dsp;
                                  version = take (length version0 - length (databaseSchemaProvider K)) version0
                              in if version \<in> set TargetPlatform_values
                                 then Inr (path_join H
                                        [''$(NETCoreTargetsPath)'', ''SystemDacpacs'', version, ''master.dacpac''])
                                 else Inl InvalidSchemaProvider)))))"

subsection \<open>The round-trip update\<close>

text \<open>
  The old import node that \<^verbatim>\<open>updateImportedTargetsToProjFile\<close> receives is a node of the
  tree, given by its path below the root, or a node that an earlier call has already taken
  out of the tree.
\<close>

datatype noderef = InTree path | Detached

definition updateImportedTargetsToProjFile ::
  "host \<Rightarrow> constants \<Rightarrow> string \<Rightarrow> string \<Rightarrow> noderef option \<Rightarrow> state \<Rightarrow> (error + unit) \<times> state" where
  "updateImportedTargetsToProjFile H K condition projectAttributeVal oldImportNode s =
     (case s of (P, fs) \<Rightarrow>
        (case projFileXmlDoc P of
           None \<Rightarrow> (Inl TypeError, P, fs)
         | Some doc \<Rightarrow>
             (let importNode =
                    setAttribute (constants.Project K) projectAttributeVal
                      (setAttribute (Condition K) condition (createElement (Import K)))
              in case oldImportNode of
                   Some old \<Rightarrow>
                     (case (case old of InTree p \<Rightarrow> replaceChild doc importNode p
                            | Detached \<Rightarrow> None) of
                        None \<Rightarrow> (Inl NotFoundError, P, fs)
                      | Some doc' \<Rightarrow>
                          serializeToProjFile H doc' (P\<lparr>projFileXmlDoc := Some doc'\<rparr>, fs))
                 | None \<Rightarrow>
                     (let doc' = appendChild doc importNode
                      in serializeToProjFile H doc'
                           (P\<lparr>projFileXmlDoc := Some doc',
                              importedTargets := importedTargets P @ [projectAttributeVal]\<rparr>, fs)))))"

definition updatePackageReferenceInProjFile :: "host \<Rightarrow> constants \<Rightarrow> state \<Rightarrow> (error + unit) \<times> state" where
  "updatePackageReferenceInProjFile H K s =
     (case s of (P, fs) \<Rightarrow>
        (case projFileXmlDoc P of
           None \<Rightarrow> (Inl TypeError, P, fs)
         | Some doc \<Rightarrow>
             (let packageRefNode =
                    setAttribute (PrivateAssets K) (All K)
                      (setAttribute (Version K) (VersionNumber K)
                         (setAttribute (Include K) (NETFrameworkAssembly K)
                            (setAttribute (Condition K) (NetCoreCondition K)
                               (createElement (PackageReference K)))))
              in case findOrCreateItemGroup K (Some (PackageReference K)) doc of
                   (doc0, g) \<Rightarrow>
                     (let doc' = appendChildAt g packageRefNode doc0
                      in serializeToProjFile H doc' (P\<lparr>projFileXmlDoc := Some doc'\<rparr>, fs)))))"

text \<open>
  Facts about \<^verbatim>\<open>getElementsByTagName\<close> and \<^verbatim>\<open>replaceChild\<close> that the termination of the import
  loop below rests on: replacing an import by a new import without children, wherever the
  old import is in the tree, does not make the list of imports longer.
\<close>

lemma elementsOfChildren_append:
  "elementsOfChildren t i (xs @ ys) = elementsOfChildren t i xs @ elementsOfChildren t (i + length xs) ys"
  by (induction xs arbitrary: i) simp_all

lemma elementsOfChildren_update:
  assumes "j < length cs"
  shows "elementsOfChildren t i (cs[j := new]) =
           elementsOfChildren t i (take j cs)
           @ ((if hasTag t new then [([i + j], new)] else [])
              @ map (\<lambda>(p, n). ((i + j) # p, n)) (getElementsByTagName t new))
           @ elementsOfChildren t (Suc (i + j)) (drop (Suc j) cs)"
proof -
  have "cs[j := new] = take j cs @ new # drop (Suc j) cs"
    using assms by (rule upd_conv_take_nth_drop)
  then show ?thesis
    using assms by (simp add: elementsOfChildren_append)
qed

lemma elementsOfChildren_split:
  assumes "j < length cs"
  shows "elementsOfChildren t i cs =
           elementsOfChildren t i (take j cs)
           @ ((if hasTag t (cs ! j) then [([i + j], cs ! j)] else [])
              @ map (\<lambda>(p, n). ((i + j) # p, n)) (getElementsByTagName t (cs ! j)))
           @ elementsOfChildren t (Suc (i + j)) (drop (Suc j) cs)"
  using elementsOfChildren_update [OF assms, of t i "cs ! j"] by simp

lemma elements_path_nonempty:
  "(p, n) \<in> set (getElementsByTagName t e) \<Longrightarrow> p \<noteq> []"
  "(p, n) \<in> set (elementsOfChildren t i cs) \<Longrightarrow> p \<noteq> []"
  by (induction t e and t i cs rule: getElementsByTagName_elementsOfChildren.induct)
     (auto split: if_splits)

lemma elementsOfChildren_child:
  "([j], n) \<in> set (elementsOfChildren t i cs) \<Longrightarrow>
     i \<le> j \<and> j - i < length cs \<and> cs ! (j - i) = n \<and> hasTag t n"
proof (induction cs arbitrary: i)
  case Nil
  then show ?case by simp
next
  case (Cons c cs)
  from Cons.prems consider
    (self) "hasTag t c" "j = i" "n = c"
    | (below) p where "[j] = i # p" "(p, n) \<in> set (getElementsByTagName t c)"
    | (rest) "([j], n) \<in> set (elementsOfChildren t (Suc i) cs)"
    by (auto split: if_splits)
  then show ?case
  proof cases
    case self
    then show ?thesis by simp
  next
    case below
    then show ?thesis using elements_path_nonempty(1) by auto
  next
    case rest
    from Cons.IH [OF rest] show ?thesis by (auto simp: Suc_diff_le)
  qed
qed

lemma elementsOfChildren_length_shift:
  "length (elementsOfChildren t i cs) = length (elementsOfChildren t j cs)"
  by (induction cs arbitrary: i j) auto

lemma elementsOfChildren_member:
  assumes "(k # q, n) \<in> set (elementsOfChildren t 0 cs)"
  shows "k < length cs
     \<and> (if q = [] then hasTag t (cs ! k) \<and> n = cs ! k
         else (q, n) \<in> set (getElementsByTagName t (cs ! k)))"
proof -
  have "(k # q, n) \<in> set (elementsOfChildren t i cs) \<Longrightarrow>
     i \<le> k \<and> k - i < length cs
     \<and> (if q = [] then hasTag t (cs ! (k - i)) \<and> n = cs ! (k - i)
         else (q, n) \<in> set (getElementsByTagName t (cs ! (k - i))))" for i
  proof (induction cs arbitrary: i)
    case Nil
    then show ?case by simp
  next
    case (Cons c cs)
    from Cons.prems consider
      (self) "hasTag t c" "k = i" "q = []" "n = c"
      | (below) "k = i" "(q, n) \<in> set (getElementsByTagName t c)"
      | (rest) "(k # q, n) \<in> set (elementsOfChildren t (Suc i) cs)"
      by (auto split: if_splits)
    then show ?case
    proof cases
      case self
      then show ?thesis by simp
    next
      case below
      with elements_path_nonempty(1) [OF below(2)] show ?thesis by simp
    next
      case rest
      from Cons.IH [OF rest] show ?thesis by (auto simp: Suc_diff_le)
    qed
  qed
  from this [of 0, OF assms] show ?thesis by (auto split: if_splits)
qed

lemma elementsOfChildren_count_split:
  assumes "k < length cs"
  shows "length (elementsOfChildren t 0 cs) =
           length (elementsOfChildren t 0 (take k cs))
           + ((if hasTag t (cs ! k) then 1 else 0) + length (getElementsByTagName t (cs ! k)))
           + length (elementsOfChildren t 0 (drop (Suc k) cs))"
  using arg_cong [OF elementsOfChildren_split [OF assms, of t 0], of length]
    elementsOfChildren_length_shift [of t "Suc k" "drop (Suc k) cs" 0]
  by simp

lemma elementsOfChildren_count_update:
  assumes "k < length cs"
  shows "length (elementsOfChildren t 0 (cs[k := x])) =
           length (elementsOfChildren t 0 (take k cs))
           + ((if hasTag t x then 1 else 0) + length (getElementsByTagName t x))
           + length (elementsOfChildren t 0 (drop (Suc k) cs))"
  using elementsOfChildren_count_split [of k "cs[k := x]" t] assms by simp

lemma relinkBelow_count:
  "(q, n) \<in> set (getElementsByTagName t x) \<Longrightarrow>
     (\<exists>x'. relinkBelow q (Element t as []) x = Some (Inl x')
            \<and> (\<forall>u. hasTag u x' = hasTag u x)
            \<and> length (getElementsByTagName t x') \<le> length (getElementsByTagName t x))
     \<or> (\<exists>chain. relinkBelow q (Element t as []) x = Some (Inr chain)
            \<and> length (elementsOfChildren t 0 chain) \<le> length (getElementsByTagName t x))"
proof (induction q "Element t as []" x arbitrary: n rule: relinkBelow.induct)
  case (1 k g bs xs)
  from "1.prems" have "([k], n) \<in> set (elementsOfChildren t 0 xs)" by simp
  from elementsOfChildren_member [OF this]
  have k: "k < length xs" and tag: "hasTag t (xs ! k)" by simp_all
  show ?case
  proof (cases "k = 0")
    case True
    have "drop 1 xs = drop (Suc 0) xs" by simp
    then show ?thesis
      using k tag True elementsOfChildren_count_split [OF k, of t]
        elementsOfChildren_length_shift [of t "Suc 0" "drop (Suc 0) xs" 0]
      by simp
  next
    case False
    then show ?thesis
      using k tag elementsOfChildren_count_split [OF k, of t]
        elementsOfChildren_count_update [OF k, of t "Element t as []"]
      by simp
  qed
next
  case (2 k j q g bs xs)
  from "2.prems" have "(k # j # q, n) \<in> set (elementsOfChildren t 0 xs)" by simp
  from elementsOfChildren_member [OF this]
  have k: "k < length xs" and below: "(j # q, n) \<in> set (getElementsByTagName t (xs ! k))"
    by simp_all
  from "2.hyps" [OF k below] show ?case
  proof
    assume "\<exists>x'. relinkBelow (j # q) (Element t as []) (xs ! k) = Some (Inl x')
            \<and> (\<forall>u. hasTag u x' = hasTag u (xs ! k))
            \<and> length (getElementsByTagName t x') \<le> length (getElementsByTagName t (xs ! k))"
    then obtain x' where r: "relinkBelow (j # q) (Element t as []) (xs ! k) = Some (Inl x')"
      and h: "hasTag t x' = hasTag t (xs ! k)"
      and c: "length (getElementsByTagName t x') \<le> length (getElementsByTagName t (xs ! k))"
      by blast
    then show ?thesis
      using k elementsOfChildren_count_split [OF k, of t]
        elementsOfChildren_count_update [OF k, of t x']
      by simp
  next
    assume "\<exists>chain. relinkBelow (j # q) (Element t as []) (xs ! k) = Some (Inr chain)
            \<and> length (elementsOfChildren t 0 chain) \<le> length (getElementsByTagName t (xs ! k))"
    then obtain chain where r: "relinkBelow (j # q) (Element t as []) (xs ! k) = Some (Inr chain)"
      and c: "length (elementsOfChildren t 0 chain) \<le> length (getElementsByTagName t (xs ! k))"
      by blast
    then show ?thesis
      using k elementsOfChildren_count_split [OF k, of t] by simp
  qed
qed (use elements_path_nonempty in auto)

lemma replaceChild_count:
  assumes "(p, n) \<in> set (getElementsByTagName t doc)"
  shows "\<exists>doc'. replaceChild doc (Element t as []) p = Some doc'
           \<and> length (getElementsByTagName t doc') \<le> length (getElementsByTagName t doc)"
proof (cases doc)
  case (Text s)
  with assms show ?thesis by simp
next
  case (Element g bs cs)
  from elements_path_nonempty(1) [OF assms] obtain i q where p: "p = i # q"
    by (cases p) auto
  from assms Element p have mem: "(i # q, n) \<in> set (elementsOfChildren t 0 cs)" by simp
  from elementsOfChildren_member [OF mem] have i: "i < length cs" by simp
  show ?thesis
  proof (cases q)
    case Nil
    with elementsOfChildren_member [OF mem] have tag: "hasTag t (cs ! i)" by simp
    show ?thesis
      using Element p Nil i tag elementsOfChildren_count_split [OF i, of t]
        elementsOfChildren_count_update [OF i, of t "Element t as []"]
      by simp
  next
    case (Cons k q')
    with elementsOfChildren_member [OF mem]
    have below: "(k # q', n) \<in> set (getElementsByTagName t (cs ! i))" by simp
    from relinkBelow_count [OF below, of as] show ?thesis
    proof
      assume "\<exists>x'. relinkBelow (k # q') (Element t as []) (cs ! i) = Some (Inl x')
            \<and> (\<forall>u. hasTag u x' = hasTag u (cs ! i))
            \<and> length (getElementsByTagName t x') \<le> length (getElementsByTagName t (cs ! i))"
      then obtain x' where "relinkBelow (k # q') (Element t as []) (cs ! i) = Some (Inl x')"
        "hasTag t x' = hasTag t (cs ! i)"
        "length (getElementsByTagName t x') \<le> length (getElementsByTagName t (cs ! i))"
        by blast
      then show ?thesis
        using Element p Cons i elementsOfChildren_count_split [OF i, of t]
          elementsOfChildren_count_update [OF i, of t x']
        by simp
    next
      assume "\<exists>chain. relinkBelow (k # q') (Element t as []) (cs ! i) = Some (Inr chain)
            \<and> length (elementsOfChildren t 0 chain) \<le> length (getElementsByTagName t (cs ! i))"
      then obtain chain where "relinkBelow (k # q') (Element t as []) (cs ! i) = Some (Inr chain)"
        "length (elementsOfChildren t 0 chain) \<le> length (getElementsByTagName t (cs ! i))"
        by blast
      then show ?thesis
        using Element p Cons i elementsOfChildren_count_split [OF i, of t] by simp
    qed
  qed
qed

text \<open>
  The number of import elements of the document: the bound of the loop of
  \<^verbatim>\<open>updateImportToSupportRoundTrip\<close>.
\<close>

definition importCount :: "constants \<Rightarrow> Project \<Rightarrow> nat" where
  "importCount K P =
     (case projFileXmlDoc P of None \<Rightarrow> 0
      | Some doc \<Rightarrow> length (getElementsByTagName (Import K) doc))"

lemma serializeToProjFile_project:
  "serializeToProjFile H d (P, fs) = (r, P', fs') \<Longrightarrow> P' = P"
  by (auto simp: serializeToProjFile_def split: prod.splits)

lemma importNode_shape:
  "setAttribute a v (setAttribute b w (createElement t)) = Element t (AList.update a v [(b, w)]) []"
  by (simp add: createElement_def)

lemma updateImportedTargets_detached:
  "updateImportedTargetsToProjFile H K c v (Some Detached) s \<noteq> (Inr u, s')"
  by (cases s) (auto simp: updateImportedTargetsToProjFile_def split: option.splits)

lemma updateImportedTargets_count:
  assumes "updateImportedTargetsToProjFile H K c v (Some (InTree p)) (P, fs) = (Inr u, P', fs')"
    and "projFileXmlDoc P = Some doc"
    and "(p, n) \<in> set (getElementsByTagName (Import K) doc)"
  shows "importCount K P' \<le> importCount K P"
proof -
  let ?new = "setAttribute (constants.Project K) v (setAttribute (Condition K) c (createElement (Import K)))"
  from assms(1,2) obtain doc' where r: "replaceChild doc ?new p = Some doc'"
    and s: "serializeToProjFile H doc' (P\<lparr>projFileXmlDoc := Some doc'\<rparr>, fs) = (Inr u, P', fs')"
    by (auto simp: updateImportedTargetsToProjFile_def Let_def split: option.splits)
  obtain as where new: "?new = Element (Import K) as []"
    by (simp add: createElement_def)
  from replaceChild_count [where t = "Import K" and as = as and doc = doc and p = p and n = n] assms(3) r
  have "length (getElementsByTagName (Import K) doc') \<le> length (getElementsByTagName (Import K) doc)"
    unfolding new by auto
  moreover from serializeToProjFile_project [OF s] have "projFileXmlDoc P' = Some doc'" by simp
  ultimately show ?thesis using assms(2) by (simp add: importCount_def)
qed

text \<open>
  The loop of \<^verbatim>\<open>updateImportToSupportRoundTrip\<close> from index \<open>i\<close> on. The list of imports is
  read from the document again at every step. When the first test has replaced the import
  and the second test holds of the same import, the node handed over is no longer in the
  tree. This takes constants that give one string to both legacy conditions and one string
  to both legacy target paths. xmldom would then link the second new import in behind the
  first, and with such constants the loop need not come to an end; the model ends the run
  there with \<open>NotFoundError\<close>.
\<close>

function updateImportLoop :: "host \<Rightarrow> constants \<Rightarrow> nat \<Rightarrow> state \<Rightarrow> (error + unit) \<times> state" where
  "updateImportLoop H K i (P, fs) =
     (case projFileXmlDoc P of
        None \<Rightarrow> (Inl TypeError, P, fs)
      | Some doc \<Rightarrow>
          (let imports = getElementsByTagName (Import K) doc
           in if i < length imports then
                (case imports ! i of
                   (p, importTarget) \<Rightarrow>
                     (let condition = getAttribute importTarget (Condition K);
                          projectAttributeVal = getAttribute importTarget (constants.Project K);
                          present = (condition = SqlDbPresentCondition K \<and> projectAttributeVal = SqlDbTargets K)
                      in case (if present
                               then updateImportedTargetsToProjFile H K (RoundTripSqlDbPresentCondition K)
                                      projectAttributeVal (Some (InTree p)) (P, fs)
                               else (Inr (), P, fs)) of
                           (Inl e, s1) \<Rightarrow> (Inl e, s1)
                         | (Inr u, s1) \<Rightarrow>
                             (case (if condition = SqlDbNotPresentCondition K \<and> projectAttributeVal = MsBuildtargets K
                                    then updateImportedTargetsToProjFile H K (RoundTripSqlDbNotPresentCondition K)
                                           projectAttributeVal (Some (if present then Detached else InTree p)) s1
                                    else (Inr (), s1)) of
                                (Inl e, s2) \<Rightarrow> (Inl e, s2)
                              | (Inr u', s2) \<Rightarrow> updateImportLoop H K (Suc i) s2)))
              else (Inr (), P, fs)))"
  by pat_completeness auto
termination
proof (relation "measure (\<lambda>(H, K, i, P, fs). importCount K P - i)", goal_cases)
  case 1
  show ?case by simp
next
  case (2 H K i P fs doc imps p n c v present e1 s1 u1 e2 s2 u2)
  obtain P2 fs2 where s2: "s2 = (P2, fs2)" by (cases s2)
  have mem: "(p, n) \<in> set (getElementsByTagName (Import K) doc)"
    using 2(2,3,4) by (metis nth_mem)
  have i: "i < importCount K P" using 2(1,2,3) by (simp add: importCount_def)
  have f1: "(if present
             then updateImportedTargetsToProjFile H K (RoundTripSqlDbPresentCondition K) v
                    (Some (InTree p)) (P, fs)
             else (Inr (), P, fs)) = (Inr (), s1)"
    using 2(8,9) by simp
  have f2: "(if c = SqlDbNotPresentCondition K \<and> v = MsBuildtargets K
             then updateImportedTargetsToProjFile H K (RoundTripSqlDbNotPresentCondition K) v
                    (Some (if present then Detached else InTree p)) s1
             else (Inr (), s1)) = (Inr (), P2, fs2)"
    using 2(10,11) s2 by simp
  have "importCount K P2 \<le> importCount K P"
  proof (cases present)
    case True
    show ?thesis
    proof (cases "c = SqlDbNotPresentCondition K \<and> v = MsBuildtargets K")
      case True
      with \<open>present\<close> f2 show ?thesis
        by (simp add: updateImportedTargets_detached)
    next
      case False
      with \<open>present\<close> f1 f2 have
        "updateImportedTargetsToProjFile H K (RoundTripSqlDbPresentCondition K) v
           (Some (InTree p)) (P, fs) = (Inr (), P2, fs2)"
        by simp
      from updateImportedTargets_count [OF this 2(1) mem] show ?thesis .
    qed
  next
    case False
    show ?thesis
    proof (cases "c = SqlDbNotPresentCondition K \<and> v = MsBuildtargets K")
      case True
      with \<open>\<not> present\<close> f1 f2 have
        "updateImportedTargetsToProjFile H K (RoundTripSqlDbNotPresentCondition K) v
           (Some (InTree p)) (P, fs) = (Inr (), P2, fs2)"
        by auto
      from updateImportedTargets_count [OF this 2(1) mem] show ?thesis .
    next
      case False
      with \<open>\<not> present\<close> f1 f2 show ?thesis by auto
    qed
  qed
  with i s2 show ?case by simp
qed

declare updateImportLoop.simps [simp del]

definition updateImportToSupportRoundTrip :: "host \<Rightarrow> constants \<Rightarrow> state \<Rightarrow> (error + unit) \<times> state" where
  "updateImportToSupportRoundTrip H K s =
     (case updateImportLoop H K 0 s of
        (Inl e, s1) \<Rightarrow> (Inl e, s1)
      | (Inr u, s1) \<Rightarrow>
          updateImportedTargetsToProjFile H K (NetCoreCondition K) (NetCoreTargets K) None s1)"

definition updateProjectForRoundTrip :: "host \<Rightarrow> constants \<Rightarrow> state \<Rightarrow> (error + unit) \<times> state" where
  "updateProjectForRoundTrip H K s =
     (case s of (P, fs) \<Rightarrow>
        (case copyFile (projectFilePath P) (projectFilePath P @ ''_backup'') fs of
           (Inl e, fs1) \<Rightarrow> (Inl e, P, fs1)
         | (Inr u, fs1) \<Rightarrow>
             (case updateImportToSupportRoundTrip H K (P, fs1) of
                (Inl e, s2) \<Rightarrow> (Inl e, s2)
              | (Inr u', s2) \<Rightarrow> updatePackageReferenceInProjFile H K s2)))"

section \<open>A concrete project\<close>

text \<open>
  An instance of the constants and of the host on which the model is evaluated. The
  element and attribute names are those of the project file vocabulary; the prefix and the
  suffix of the schema provider are the ones that the comment in \<^verbatim>\<open>getMasterDacpac\<close> spells
  out. The other values stand for the strings of the absent module.
\<close>

definition exampleConstants :: constants where
  "exampleConstants =
     \<lparr>ItemGroup = ''ItemGroup'', Build = ''Build'', Folder = ''Folder'', Include = ''Include'',
      Import = ''Import'', Project = ''Project'', Condition = ''Condition'',
      SqlCmdVariable = ''SqlCmdVariable'', DefaultValue = ''DefaultValue'',
      ArtifactReference = ''ArtifactReference'',
      SuppressMissingDependenciesErrors = ''SuppressMissingDependenciesErrors'',
      DatabaseVariableLiteralValue = ''DatabaseVariableLiteralValue'', DSP = ''DSP'',
      PackageReference = ''PackageReference'', Version = ''Version'',
      PrivateAssets = ''PrivateAssets'', All = ''All'',
      NETFrameworkAssembly = ''Microsoft.NETFramework.ReferenceAssemblies'',
      VersionNumber = ''1.0.0'',
      SqlDbPresentCondition = ''$(SQLDBExtensionsRefPath) != empty'',
      SqlDbNotPresentCondition = ''$(SQLDBExtensionsRefPath) == empty'',
      RoundTripSqlDbPresentCondition = ''$(NetCoreBuild) != true AND $(SQLDBExtensionsRefPath) != empty'',
      RoundTripSqlDbNotPresentCondition = ''$(NetCoreBuild) != true AND $(SQLDBExtensionsRefPath) == empty'',
      SqlDbTargets = ''$(SQLDBExtensionsRefPath)/SqlTasks.targets'',
      MsBuildtargets = ''$(MSBuildExtensionsPath)/SSDT/SqlTasks.targets'',
      NetCoreCondition = ''$(NetCoreBuild) == true'',
      NetCoreTargets = ''$(NETCoreTargetsPath)/SqlTasks.targets'',
      MicrosoftDatatoolsSchemaSqlSql = ''Microsoft.Data.Tools.Schema.Sql.Sql'',
      databaseSchemaProvider = ''DatabaseSchemaProvider''\<rparr>"

definition exampleDoc :: node where
  "exampleDoc =
     Element ''Project'' []
       [Element ''PropertyGroup'' []
          [Element ''DSP'' []
             [Text ''Microsoft.Data.Tools.Schema.Sql.Sql130DatabaseSchemaProvider'']],
        Element ''ItemGroup'' [] [Element ''Folder'' [(''Include'', ''Tables'')] []],
        Element ''ItemGroup'' [] [Element ''Build'' [(''Include'', ''Tables/a.sql'')] []],
        Element ''ItemGroup'' []
          [Element ''SqlCmdVariable'' [(''Include'', ''Env'')]
             [Element ''DefaultValue'' [] [Text ''dev'']]],
        Element ''Import''
          [(''Condition'', ''$(SQLDBExtensionsRefPath) != empty''),
           (''Project'', ''$(SQLDBExtensionsRefPath)/SqlTasks.targets'')] [],
        Element ''Import''
          [(''Condition'', ''$(SQLDBExtensionsRefPath) == empty''),
           (''Project'', ''$(MSBuildExtensionsPath)/SSDT/SqlTasks.targets'')] []]"

text \<open>A document in which a variable is declared without a default value.\<close>

definition brokenDoc :: node where
  "brokenDoc =
     Element ''Project'' []
       [Element ''ItemGroup'' [] [Element ''SqlCmdVariable'' [(''Include'', ''Env'')] []]]"

definition exampleText :: string where
  "exampleText = serializeNode exampleDoc"

definition brokenText :: string where
  "brokenText = serializeNode brokenDoc"

definition exampleHost :: host where
  "exampleHost =
     \<lparr>parseFromString = parseDocument,
      serializeToString = serializeNode,
      path_join = (\<lambda>ps. foldr (\<lambda>a b. if b = [] then a else a @ ''/'' @ b) ps []),
      path_dirname = (\<lambda>p. rev (drop 1 (dropWhile (\<lambda>c. c \<noteq> CHR ''/'') (rev p))))\<rparr>"

definition exampleProject :: Project where
  "exampleProject = (newProject ''/db/db.sqlproj'')\<lparr>projFileXmlDoc := Some exampleDoc\<rparr>"

definition exampleFs :: filesystem where
  "exampleFs = [''/db'' \<mapsto> FsDir, ''/db/db.sqlproj'' \<mapsto> FsFile exampleText]"

text \<open>The same project directory with the second document in the project file.\<close>

definition brokenFs :: filesystem where
  "brokenFs = [''/db'' \<mapsto> FsDir, ''/db/db.sqlproj'' \<mapsto> FsFile brokenText]"

text \<open>
  A project whose schema provider string has the right lengths around the version and the
  wrong characters before and after it.
\<close>

definition disguisedDsp :: string where
  "disguisedDsp = ''Microsoft.Data.Tools.Schema.Sql.Xyz130DatabaseSchemaProducer''"

definition disguisedProject :: Project where
  "disguisedProject =
     (newProject ''/db/db.sqlproj'')
       \<lparr>projFileXmlDoc := Some (Element ''Project'' [] [Element ''DSP'' [] [Text disguisedDsp]])\<rparr>"

text \<open>The example file system with a directory where the backup would go.\<close>

definition blockedFs :: filesystem where
  "blockedFs = exampleFs(''/db/db.sqlproj_backup'' \<mapsto> FsDir)"

section \<open>Notions used in the statements\<close>

text \<open>
  A variable declaration without a default value, in the sense of the reads of
  \<^verbatim>\<open>readProjFile\<close>: it has no default-value element below it, or the first such element
  has no child node.
\<close>

definition missingDefault :: "constants \<Rightarrow> node \<Rightarrow> bool" where
  "missingDefault K sqlCmdVar =
     (case getElementsByTagName (DefaultValue K) sqlCmdVar of
        [] \<Rightarrow> True
      | (p, d) # ds \<Rightarrow> childNodes d = [])"

text \<open>
  A step from one state to another that keeps the path of the project file and changes
  the file system at that path only.
\<close>

definition writesProjectFileOnly :: "state \<Rightarrow> state \<Rightarrow> bool" where
  "writesProjectFileOnly s s' =
     (projectFilePath (fst s') = projectFilePath (fst s)
      \<and> (\<forall>q. q \<noteq> projectFilePath (fst s) \<longrightarrow> snd s' q = snd s q))"

text \<open>
  Two views of the tree that the facts about the round-trip update use: the attributes of
  a node, and whether a path leads to an element.
\<close>

fun attributesOf :: "node \<Rightarrow> (string \<times> string) list" where
  "attributesOf (Element t as cs) = as"
| "attributesOf (Text s) = []"

fun elementAt :: "path \<Rightarrow> node \<Rightarrow> bool" where
  "elementAt [] (Element t as cs) = True"
| "elementAt [] (Text s) = False"
| "elementAt (i # p) (Element t as cs) = (i < length cs \<and> elementAt p (cs ! i))"
| "elementAt (i # p) (Text s) = False"

text \<open>
  The two kinds of import that the round-trip update rewrites, by the two tests of
  \<^verbatim>\<open>updateImportToSupportRoundTrip\<close>, the condition that it gives to the new import, and the
  new import that takes the place of the old one.
\<close>

definition presentImport :: "constants \<Rightarrow> node \<Rightarrow> bool" where
  "presentImport K n =
     (getAttribute n (Condition K) = SqlDbPresentCondition K
      \<and> getAttribute n (constants.Project K) = SqlDbTargets K)"

definition absentImport :: "constants \<Rightarrow> node \<Rightarrow> bool" where
  "absentImport K n =
     (getAttribute n (Condition K) = SqlDbNotPresentCondition K
      \<and> getAttribute n (constants.Project K) = MsBuildtargets K)"

definition roundTripCondition :: "constants \<Rightarrow> node \<Rightarrow> string" where
  "roundTripCondition K n =
     (if getAttribute n (Condition K) = SqlDbPresentCondition K
      then RoundTripSqlDbPresentCondition K else RoundTripSqlDbNotPresentCondition K)"

definition roundTripImport :: "constants \<Rightarrow> node \<Rightarrow> node" where
  "roundTripImport K n =
     setAttribute (constants.Project K) (getAttribute n (constants.Project K))
       (setAttribute (Condition K) (roundTripCondition K n) (createElement (Import K)))"

lemmas example_defs =
  exampleConstants_def exampleHost_def exampleProject_def exampleFs_def exampleDoc_def
  newProject_def projectFolderPath_def

section \<open>The reader reads back what the writer writes\<close>

abbreviation serializeNodes :: "node list \<Rightarrow> string" where
  "serializeNodes cs \<equiv> concat (map serializeNode cs)"

lemma takeWhile_stop:
  "list_all P xs \<Longrightarrow> ys = [] \<or> \<not> P (hd ys) \<Longrightarrow> takeWhile P (xs @ ys) = xs"
  by (induction xs) (auto simp: takeWhile_eq_Nil_iff neq_Nil_conv)

lemma dropWhile_stop:
  "list_all P xs \<Longrightarrow> ys = [] \<or> \<not> P (hd ys) \<Longrightarrow> dropWhile P (xs @ ys) = ys"
  by (induction xs) (auto simp: dropWhile_eq_self_iff neq_Nil_conv)

lemma stripPrefix_append: "stripPrefix p (p @ s) = Some s"
  by (simp add: stripPrefix_def)

lemma serializeAttribute_length: "length as \<le> length (concat (map serializeAttribute as))"
  by (induction as) (auto simp: serializeAttribute_def)

lemma parseAttributes_serialize:
  "list_all wellFormedAttribute as \<Longrightarrow> length as < n \<Longrightarrow>
     parseAttributes n (concat (map serializeAttribute as) @ CHR ''>'' # rest) = Some (as, rest)"
proof (induction as arbitrary: n)
  case Nil
  then obtain m where "n = Suc m" by (cases n) auto
  then show ?case by simp
next
  case (Cons av as)
  obtain a v where av: "av = (a, v)" by (cases av)
  from Cons.prems obtain m where n: "n = Suc m" and m: "length as < m" by (cases n) auto
  from Cons.prems av have wfa: "wellFormedAttribute (a, v)"
    and rest: "list_all wellFormedAttribute as"
    by simp_all
  from wfa have a: "a \<noteq> []" "list_all nameChar a"
    and v: "list_all (\<lambda>x. x \<noteq> quote) v"
    by (simp_all add: wellFormedAttribute_def wellFormedName_def)
  let ?more = "concat (map serializeAttribute as) @ CHR ''>'' # rest"
  let ?afterName = "''='' @ [quote] @ v @ [quote] @ ?more"
  have name: "takeWhile nameChar (a @ ?afterName) = a" "dropWhile nameChar (a @ ?afterName) = ?afterName"
    using a(2) by (simp_all add: takeWhile_stop dropWhile_stop nameChar_def)
  have val: "takeWhile (\<lambda>x. x \<noteq> quote) (v @ quote # ?more) = v"
    "dropWhile (\<lambda>x. x \<noteq> quote) (v @ quote # ?more) = quote # ?more"
    using v by (simp_all add: takeWhile_stop dropWhile_stop)
  have input: "concat (map serializeAttribute (av # as)) @ CHR ''>'' # rest = CHR '' '' # a @ ?afterName"
    by (simp add: av serializeAttribute_def)
  have strip: "stripPrefix (''='' @ [quote]) ?afterName = Some (v @ quote # ?more)"
    using stripPrefix_append [of "''='' @ [quote]" "v @ quote # ?more"] by simp
  show ?case
    unfolding input n
    using a(1) name val strip Cons.IH [OF rest m]
    by (simp add: av Let_def del: stripPrefix_append)
qed

lemma serializeNodes_start:
  "wellFormedNodes (c # cs) \<Longrightarrow> \<not> isText c \<Longrightarrow> hd (serializeNodes (c # cs) @ rest) = CHR ''<''"
  by (cases c) simp_all

lemma closing_start:
  "take 2 rest = ''</'' \<Longrightarrow> \<exists>r. rest = CHR ''<'' # CHR ''/'' # r"
  by (cases rest; cases "tl rest") (auto simp: take_Suc_conv_app_nth)

lemma parseNodes_serialize:
  "wellFormedNodes cs \<Longrightarrow> depthNodes cs \<le> n \<Longrightarrow> rest = [] \<or> take 2 rest = ''</'' \<Longrightarrow>
     parseNodes n (serializeNodes cs @ rest) = Some (cs, rest)"
proof (induction n arbitrary: cs rest)
  case 0
  then show ?case by (cases cs) simp_all
next
  case (Suc m)
  show ?case
  proof (cases cs)
    case Nil
    from Suc.prems(3) show ?thesis
    proof
      assume "rest = []"
      with Nil show ?thesis by simp
    next
      assume "take 2 rest = ''</''"
      then obtain r where "rest = CHR ''<'' # CHR ''/'' # r"
        using closing_start by blast
      with Nil show ?thesis by simp
    qed
  next
    case (Cons c cs')
    from Suc.prems(1) Cons have wfc: "wellFormedNode c" and wfcs: "wellFormedNodes cs'"
      and adj: "case cs' of [] \<Rightarrow> True | d # ds \<Rightarrow> \<not> (isText c \<and> isText d)"
      by simp_all
    from Suc.prems(2) Cons have dc: "depthNode c \<le> m" and dcs: "depthNodes cs' \<le> m"
      by simp_all
    let ?more = "serializeNodes cs' @ rest"
    have siblings: "parseNodes m ?more = Some (cs', rest)"
      using Suc.IH [OF wfcs dcs Suc.prems(3)] .
    show ?thesis
    proof (cases c)
      case (Text d)
      from wfc Text have d: "d \<noteq> []" and chars: "list_all (\<lambda>x. x \<noteq> CHR ''<'') d"
        by simp_all
      have stop: "?more = [] \<or> \<not> (hd ?more \<noteq> CHR ''<'')"
      proof (cases cs')
        case Nil
        with Suc.prems(3) show ?thesis
          by (auto dest: closing_start)
      next
        case (Cons e es)
        with adj Text have "\<not> isText e" by simp
        with wfcs Cons serializeNodes_start [of e es rest] show ?thesis by simp
      qed
      obtain x xs where dx: "d = x # xs" using d by (cases d) auto
      with chars have x: "x \<noteq> CHR ''<''" by simp
      have tw: "takeWhile (\<lambda>x. x \<noteq> CHR ''<'') (d @ ?more) = d"
        and dw: "dropWhile (\<lambda>x. x \<noteq> CHR ''<'') (d @ ?more) = ?more"
        using chars stop by (simp_all add: takeWhile_stop dropWhile_stop)
      have "parseNodes (Suc m) (d @ ?more) = Some (Text d # cs', rest)"
        using tw dw siblings x unfolding dx by (simp add: Let_def)
      with Cons Text show ?thesis by simp
    next
      case (Element t as ch)
      from wfc Element have t: "t \<noteq> []" "list_all nameChar t"
        and wfas: "list_all wellFormedAttribute as" and wfch: "wellFormedNodes ch"
        by (simp_all add: wellFormedName_def)
      from dc Element have dch: "depthNodes ch \<le> m" by simp
      let ?close = "''</'' @ t @ ''>'' @ ?more"
      let ?attrs = "concat (map serializeAttribute as) @ CHR ''>'' # serializeNodes ch @ ?close"
      obtain x xs where tx: "t = x # xs" using t(1) by (cases t) auto
      with t(2) have x: "x \<noteq> CHR ''/''" by (simp add: nameChar_def)
      have stop: "?attrs = [] \<or> \<not> nameChar (hd ?attrs)"
        by (cases as) (auto simp: nameChar_def serializeAttribute_def)
      have tw: "takeWhile nameChar (t @ ?attrs) = t"
        and dw: "dropWhile nameChar (t @ ?attrs) = ?attrs"
        using t(2) stop by (simp_all add: takeWhile_stop dropWhile_stop)
      have "length as < Suc (length ?attrs)"
        using serializeAttribute_length [of as] by simp
      from parseAttributes_serialize [OF wfas this]
      have attrs: "parseAttributes (Suc (length ?attrs)) ?attrs = Some (as, serializeNodes ch @ ?close)" .
      have children: "parseNodes m (serializeNodes ch @ ?close) = Some (ch, ?close)"
        using Suc.IH [OF wfch dch, of ?close] by simp
      have strip: "stripPrefix (''</'' @ t @ ''>'') ?close = Some ?more"
        using stripPrefix_append [of "''</'' @ t @ ''>''" ?more] by simp
      have input: "serializeNodes cs @ rest = CHR ''<'' # t @ ?attrs"
        using Cons Element by simp
      have first: "take 1 (t @ ?attrs) \<noteq> ''/''"
        using tx x by simp
      show ?thesis
        unfolding input
        using first t(1) tw dw attrs children strip siblings Cons Element
        by (simp add: Let_def del: stripPrefix_append parseAttributes.simps)
    qed
  qed
qed

lemma serialize_depth:
  "wellFormedNode c \<Longrightarrow> depthNode c < length (serializeNode c)"
  "wellFormedNodes cs \<Longrightarrow> depthNodes cs \<le> Suc (length (serializeNodes cs))"
proof (induction c and cs rule: wellFormedNode_wellFormedNodes.induct)
  case (1 s)
  then show ?case by simp
next
  case (2 t as cs)
  then show ?case by simp
next
  case 3
  show ?case by simp
next
  case (4 c cs)
  then show ?case by auto
qed

lemma parseDocument_serializeNode:
  assumes "wellFormedNode (Element t as cs)"
  shows "parseDocument (serializeNode (Element t as cs)) = Some (Element t as cs)"
proof -
  let ?s = "serializeNode (Element t as cs)"
  have "wellFormedNodes [Element t as cs]" using assms by simp
  moreover have "depthNodes [Element t as cs] \<le> Suc (length ?s)"
    using serialize_depth(1) [OF assms] by simp
  ultimately have "parseNodes (Suc (length ?s)) (serializeNodes [Element t as cs] @ []) =
      Some ([Element t as cs], [])"
    by (intro parseNodes_serialize) simp_all
  then show ?thesis by (simp add: parseDocument_def)
qed



lemma stripPrefix_Some: "stripPrefix p s = Some r \<Longrightarrow> s = p @ r"
  by (auto simp: stripPrefix_def split: if_splits) (metis append_take_drop_id)





lemma parseDocument_serialize:
  "wellFormedNode d \<Longrightarrow> \<not> isText d \<Longrightarrow> parseDocument (serializeNode d) = Some d"
  using parseDocument_serializeNode by (cases d) simp_all

lemma example_wellFormed:
  "wellFormedNode exampleDoc" "\<not> isText exampleDoc"
  "wellFormedNode brokenDoc" "\<not> isText brokenDoc"
  by (simp_all add: exampleDoc_def brokenDoc_def wellFormedName_def wellFormedAttribute_def
      nameChar_def quote_def)

lemma example_parse:
  "parseFromString exampleHost exampleText = Some exampleDoc"
  "parseFromString exampleHost brokenText = Some brokenDoc"
  unfolding exampleText_def brokenText_def
  by (simp_all add: exampleHost_def parseDocument_serialize example_wellFormed)

section \<open>Shared facts\<close>

lemma writeFile_cases:
  "writeFile p c fs = (if fs p = Some FsDir then (Inl IOError, fs) else (Inr (), fs(p \<mapsto> FsFile c)))"
  by (simp add: writeFile_def split: option.splits fsentry.splits)

lemma addDatabaseReference_document:
  assumes "projFileXmlDoc P = Some (Element g as cs)"
    and "addDatabaseReference H K uri loc nm (P, fs) = (Inr u, P', fs')"
  shows "projFileXmlDoc P' =
           Some (Element g as
                   (cs @ [Element (ItemGroup K) []
                            [referenceNode K (newDatabaseReferenceProjectEntry uri loc nm)]]))"
  using assms
  by (auto simp: addDatabaseReference_def addToProjFile_def newDatabaseReferenceProjectEntry_def
      addDatabaseReferenceToProjFile_def findOrCreateItemGroup_def createElement_def
      serializeToProjFile_def writeFile_cases Let_def split: if_splits)

lemma referenceNode_shape:
  "referenceNode K entry =
     Element (ArtifactReference K)
       (AList.update (Include K) (fsUri entry) [(Condition K, NetCoreCondition K)])
       (Element (SuppressMissingDependenciesErrors K) [] [Text ''False'']
        # (if databaseLocation entry = Some differentDatabaseSameServer
           then [Element (DatabaseVariableLiteralValue K) []
                   [Text (case name entry of Some n \<Rightarrow> n | None \<Rightarrow> ''undefined'')]]
           else []))"
  by (simp add: referenceNode_def createElement_def createTextNode_def Let_def)

lemmas add_reference_defs =
  addDatabaseReference_def addToProjFile_def newDatabaseReferenceProjectEntry_def
  addDatabaseReferenceToProjFile_def findOrCreateItemGroup_def createElement_def
  createTextNode_def referenceNode_def serializeToProjFile_def writeFile_cases

lemma example_addDatabaseReference:
  "fst (addDatabaseReference exampleHost exampleConstants uri loc nm (exampleProject, exampleFs)) = Inr ()"
  by (simp add: add_reference_defs example_defs Let_def)

lemma TargetPlatform_values_eq:
  "TargetPlatform_values = [''90'', ''100'', ''110'', ''120'', ''130'', ''140'', ''150'', ''AzureV12'']"
  by (simp add: TargetPlatform_values_def)

lemma getMasterDacpac_text:
  assumes "projFileXmlDoc P = Some doc"
    and "document_getElementsByTagName (DSP K) doc = [d]"
    and "childNodes d = [Text dsp]"
  shows "getMasterDacpac H K P =
           (let version0 = drop (length (MicrosoftDatatoolsSchemaSqlSql K)) dsp;
                version = take (length version0 - length (databaseSchemaProvider K)) version0
            in if version \<in> set TargetPlatform_values
               then Inr (path_join H [''$(NETCoreTargetsPath)'', ''SystemDacpacs'', version, ''master.dacpac''])
               else Inl InvalidSchemaProvider)"
  using assms by (simp add: getMasterDacpac_def)

lemma readSqlCmdVariables_missing:
  "\<exists>v \<in> set vs. missingDefault K v \<Longrightarrow> fst (readSqlCmdVariables K vs m) = Inl TypeError"
proof (induction vs arbitrary: m)
  case Nil
  then show ?case by simp
next
  case (Cons v vs)
  show ?case
  proof (cases "missingDefault K v")
    case True
    then show ?thesis
      by (auto simp: missingDefault_def split: list.splits)
  next
    case False
    with Cons.prems have "\<exists>v \<in> set vs. missingDefault K v" by simp
    from Cons.IH [OF this] False show ?thesis
      by (auto simp: missingDefault_def split: list.splits)
  qed
qed

lemmas add_folder_defs =
  addFolderItem_def addToProjFile_def addFolderToProjFile_def addDatabaseReferenceToProjFile_def
  findOrCreateItemGroup_def createProjectEntry_def createElement_def createTextNode_def
  referenceNode_def serializeToProjFile_def writeFile_cases exists_path_def mkdir_recursive_def

lemma writesProjectFileOnly_refl: "writesProjectFileOnly s s"
  by (simp add: writesProjectFileOnly_def)

lemma writesProjectFileOnly_trans:
  "writesProjectFileOnly s s' \<Longrightarrow> writesProjectFileOnly s' s'' \<Longrightarrow> writesProjectFileOnly s s''"
  by (simp add: writesProjectFileOnly_def)

lemma serializeToProjFile_frame:
  "serializeToProjFile H d s = (r, s') \<Longrightarrow> writesProjectFileOnly s s'"
  by (cases s) (auto simp: serializeToProjFile_def writeFile_cases writesProjectFileOnly_def
      split: if_splits)

lemma updateImportedTargets_frame:
  "updateImportedTargetsToProjFile H K c v old s = (r, s') \<Longrightarrow> writesProjectFileOnly s s'"
  by (cases s)
     (auto simp: updateImportedTargetsToProjFile_def Let_def writesProjectFileOnly_def
       split: option.splits dest!: serializeToProjFile_frame)

lemma updatePackageReference_frame:
  "updatePackageReferenceInProjFile H K s = (r, s') \<Longrightarrow> writesProjectFileOnly s s'"
  by (cases s)
     (auto simp: updatePackageReferenceInProjFile_def Let_def writesProjectFileOnly_def
       split: option.splits prod.splits dest!: serializeToProjFile_frame)

lemma updateImportLoop_frame:
  "updateImportLoop H K i s = (r, s') \<Longrightarrow> writesProjectFileOnly s s'"
proof (induction H K i s arbitrary: r s' rule: updateImportLoop.induct)
  case (1 H K i P fs)
  show ?case
  proof (cases "projFileXmlDoc P")
    case None
    with "1.prems" show ?thesis
      by (simp add: updateImportLoop.simps writesProjectFileOnly_refl)
  next
    case (Some doc)
    let ?imports = "getElementsByTagName (Import K) doc"
    show ?thesis
    proof (cases "i < length ?imports")
      case False
      with Some "1.prems" show ?thesis
        by (simp add: updateImportLoop.simps writesProjectFileOnly_refl)
    next
      case True
      obtain p n where pn: "?imports ! i = (p, n)" by (cases "?imports ! i")
      let ?c = "getAttribute n (Condition K)"
      let ?v = "getAttribute n (constants.Project K)"
      let ?present = "?c = SqlDbPresentCondition K \<and> ?v = SqlDbTargets K"
      let ?first = "if ?present
                    then updateImportedTargetsToProjFile H K (RoundTripSqlDbPresentCondition K) ?v
                           (Some (InTree p)) (P, fs)
                    else (Inr (), P, fs)"
      obtain r1 s1 where first: "?first = (r1, s1)" by (cases ?first)
      have f1: "writesProjectFileOnly (P, fs) s1"
        using first by (auto split: if_splits intro: updateImportedTargets_frame writesProjectFileOnly_refl)
      show ?thesis
      proof (cases r1)
        case (Inl e)
        with "1.prems" Some True pn first f1 show ?thesis
          by (simp add: updateImportLoop.simps)
      next
        case (Inr u1)
        let ?second = "if ?c = SqlDbNotPresentCondition K \<and> ?v = MsBuildtargets K
                       then updateImportedTargetsToProjFile H K (RoundTripSqlDbNotPresentCondition K) ?v
                              (Some (if ?present then Detached else InTree p)) s1
                       else (Inr (), s1)"
        obtain r2 s2 where second: "?second = (r2, s2)" by (cases ?second)
        have f2: "writesProjectFileOnly s1 s2"
          using second by (auto split: if_splits intro: updateImportedTargets_frame writesProjectFileOnly_refl)
        show ?thesis
        proof (cases r2)
          case (Inl e)
          with "1.prems" Some True pn first second Inr f1 f2 show ?thesis
            by (auto simp: updateImportLoop.simps intro: writesProjectFileOnly_trans)
        next
          case (Inr u2)
          with "1.prems" Some True pn first second \<open>r1 = Inr u1\<close>
          have rec: "updateImportLoop H K (Suc i) s2 = (r, s')"
            by (simp add: updateImportLoop.simps)
          have "writesProjectFileOnly s2 s'"
            using "1.IH" [OF Some refl True pn [symmetric] refl refl refl _ _ _ _ rec]
              first second Inr \<open>r1 = Inr u1\<close>
            by simp
          with f1 f2 show ?thesis by (blast intro: writesProjectFileOnly_trans)
        qed
      qed
    qed
  qed
qed


lemma backup_path_differs: "p @ ''_backup'' \<noteq> (p::string)"
  by simp

lemma copyFile_cases:
  "copyFile src dst fs =
     (case fs src of
        Some (FsFile c) \<Rightarrow>
          if fs dst = Some FsDir then (Inl IOError, fs) else (Inr (), fs(dst \<mapsto> FsFile c))
      | Some FsDir \<Rightarrow> (Inl IOError, fs)
      | None \<Rightarrow> (Inl IOError, fs))"
  by (simp add: copyFile_def split: option.splits fsentry.splits)

lemma updateImportToSupportRoundTrip_frame:
  "updateImportToSupportRoundTrip H K s = (r, s') \<Longrightarrow> writesProjectFileOnly s s'"
  by (auto simp: updateImportToSupportRoundTrip_def split: prod.splits sum.splits
      dest!: updateImportLoop_frame updateImportedTargets_frame intro: writesProjectFileOnly_trans)

section \<open>Adding a script that is not on disk\<close>

text \<open>
  Claim C4. For every relative path at which nothing exists on disk (the path is joined to
  the folder of the project), \<^verbatim>\<open>addScriptItem\<close> with that path and no contents fails with the
  file-not-found error, and after the failure the project (so its \<open>files\<close> and its
  document) and the file system are what they were before the call.
\<close>

theorem addScriptItem_missing_file:
  assumes "fs (path_join H [projectFolderPath H P, relativeFilePath]) = None"
  shows "addScriptItem H K relativeFilePath None (P, fs) =
           (Inl (FileNotFound (path_join H [projectFolderPath H P, relativeFilePath])), P, fs)"
  using assms by (simp add: addScriptItem_def exists_path_def Let_def)

theorem addScriptItem_missing_file_witness:
  "exampleFs (path_join exampleHost [projectFolderPath exampleHost exampleProject, ''Tables/b.sql'']) = None
   \<and> addScriptItem exampleHost exampleConstants ''Tables/b.sql'' None (exampleProject, exampleFs) =
       (Inl (FileNotFound ''/db/Tables/b.sql''), exampleProject, exampleFs)"
proof -
  have h: "exampleFs (path_join exampleHost [projectFolderPath exampleHost exampleProject, ''Tables/b.sql'']) = None"
    by (simp add: exampleFs_def exampleHost_def projectFolderPath_def exampleProject_def newProject_def)
  have p: "path_join exampleHost [projectFolderPath exampleHost exampleProject, ''Tables/b.sql''] = ''/db/Tables/b.sql''"
    by (simp add: exampleHost_def projectFolderPath_def exampleProject_def newProject_def)
  from addScriptItem_missing_file
         [of exampleFs exampleHost exampleProject "''Tables/b.sql''" exampleConstants] h p
  show ?thesis by simp
qed

section \<open>Database references\<close>

text \<open>
  Claim C10. Every reference element that \<^verbatim>\<open>addDatabaseReference\<close> creates carries the
  condition attribute with the fixed .NET Core condition string, for either location and
  whatever the name: the caller has no say in it. (The names of the condition attribute
  and of the include attribute are different constants.)
\<close>

theorem addDatabaseReference_condition:
  assumes "projFileXmlDoc P = Some (Element g as cs)"
    and "addDatabaseReference H K uri loc nm (P, fs) = (Inr u, P', fs')"
    and "Condition K \<noteq> Include K"
  shows "\<exists>r. projFileXmlDoc P' = Some (Element g as (cs @ [Element (ItemGroup K) [] [r]]))
           \<and> hasTag (ArtifactReference K) r
           \<and> getAttribute r (Condition K) = NetCoreCondition K"
  using addDatabaseReference_document [OF assms(1,2)] assms(3)
  by (simp add: referenceNode_shape)

theorem addDatabaseReference_condition_witness:
  "\<exists>r. projFileXmlDoc (fst (snd (addDatabaseReference exampleHost exampleConstants
              ''/ref/other.dacpac'' sameDatabase None (exampleProject, exampleFs)))) =
          Some (Element ''Project'' []
                  (childNodes exampleDoc @ [Element ''ItemGroup'' [] [r]]))
        \<and> hasTag ''ArtifactReference'' r
        \<and> getAttribute r ''Condition'' = ''$(NetCoreBuild) == true''"
proof -
  obtain x P' fs' where res:
    "addDatabaseReference exampleHost exampleConstants ''/ref/other.dacpac'' sameDatabase None
       (exampleProject, exampleFs) = (x, P', fs')"
    by (metis prod_cases3)
  with example_addDatabaseReference [of "''/ref/other.dacpac''" sameDatabase None]
  have ok: "addDatabaseReference exampleHost exampleConstants ''/ref/other.dacpac'' sameDatabase None
       (exampleProject, exampleFs) = (Inr (), P', fs')" by simp
  have doc: "projFileXmlDoc exampleProject = Some (Element ''Project'' [] (childNodes exampleDoc))"
    by (simp add: example_defs)
  have ne: "Condition exampleConstants \<noteq> Include exampleConstants"
    by (simp add: example_defs)
  from addDatabaseReference_condition [OF doc ok ne] ok show ?thesis
    by (simp add: exampleConstants_def)
qed

text \<open>
  Claim C7. The reference element that \<^verbatim>\<open>addDatabaseReference\<close> creates has a child for the
  suppression of missing dependency errors whose text is \<^verbatim>\<open>False\<close>; it has a child for the
  literal database name exactly when the location is \<open>differentDatabaseSameServer\<close>, and
  the text of that child is the name supplied. With \<open>sameDatabase\<close> there is no such
  child. (The tags of the two children are different constants.)
\<close>

theorem addDatabaseReference_children:
  assumes "projFileXmlDoc P = Some (Element g as cs)"
    and "addDatabaseReference H K uri loc (Some nm) (P, fs) = (Inr u, P', fs')"
    and "SuppressMissingDependenciesErrors K \<noteq> DatabaseVariableLiteralValue K"
  shows "\<exists>r. projFileXmlDoc P' = Some (Element g as (cs @ [Element (ItemGroup K) [] [r]]))
           \<and> hasTag (ArtifactReference K) r
           \<and> Element (SuppressMissingDependenciesErrors K) [] [Text ''False''] \<in> set (childNodes r)
           \<and> ((\<exists>c \<in> set (childNodes r). hasTag (DatabaseVariableLiteralValue K) c)
                = (loc = differentDatabaseSameServer))
           \<and> (Element (DatabaseVariableLiteralValue K) [] [Text nm] \<in> set (childNodes r))
                = (loc = differentDatabaseSameServer)
           \<and> (\<forall>c \<in> set (childNodes r). hasTag (DatabaseVariableLiteralValue K) c
                \<longrightarrow> c = Element (DatabaseVariableLiteralValue K) [] [Text nm])"
  using addDatabaseReference_document [OF assms(1,2)] assms(3)
  by (auto simp: referenceNode_shape newDatabaseReferenceProjectEntry_def)

theorem addDatabaseReference_children_witness:
  "\<exists>r. projFileXmlDoc (fst (snd (addDatabaseReference exampleHost exampleConstants
              ''/ref/master.dacpac'' differentDatabaseSameServer (Some ''master'')
              (exampleProject, exampleFs)))) =
          Some (Element ''Project'' []
                  (childNodes exampleDoc @ [Element ''ItemGroup'' [] [r]]))
        \<and> Element ''SuppressMissingDependenciesErrors'' [] [Text ''False''] \<in> set (childNodes r)
        \<and> Element ''DatabaseVariableLiteralValue'' [] [Text ''master''] \<in> set (childNodes r)"
proof -
  obtain x P' fs' where res:
    "addDatabaseReference exampleHost exampleConstants ''/ref/master.dacpac''
       differentDatabaseSameServer (Some ''master'') (exampleProject, exampleFs) = (x, P', fs')"
    by (metis prod_cases3)
  with example_addDatabaseReference
         [of "''/ref/master.dacpac''" differentDatabaseSameServer "Some ''master''"]
  have ok: "addDatabaseReference exampleHost exampleConstants ''/ref/master.dacpac''
       differentDatabaseSameServer (Some ''master'') (exampleProject, exampleFs) = (Inr (), P', fs')"
    by simp
  have doc: "projFileXmlDoc exampleProject = Some (Element ''Project'' [] (childNodes exampleDoc))"
    by (simp add: example_defs)
  have ne: "SuppressMissingDependenciesErrors exampleConstants
              \<noteq> DatabaseVariableLiteralValue exampleConstants"
    by (simp add: example_defs)
  from addDatabaseReference_children [OF doc ok ne] ok show ?thesis
    by (auto simp: exampleConstants_def)
qed

text \<open>
  Claim C8, as the specification states it: \<^verbatim>\<open>addDatabaseReference\<close> puts the reference into
  an item group that the document already has and creates one only when there is none.
  The program calls \<^verbatim>\<open>findOrCreateItemGroup\<close> without a tag, and without a tag the search is
  skipped: on a document with three item groups the call leaves four.
\<close>

theorem addDatabaseReference_existing_group_counterexample:
  "getElementsByTagName (ItemGroup exampleConstants) exampleDoc \<noteq> []
   \<and> fst (addDatabaseReference exampleHost exampleConstants ''/ref/other.dacpac'' sameDatabase None
             (exampleProject, exampleFs)) = Inr ()
   \<and> length (getElementsByTagName (ItemGroup exampleConstants) exampleDoc) = 3
   \<and> (case projFileXmlDoc (fst (snd (addDatabaseReference exampleHost exampleConstants
              ''/ref/other.dacpac'' sameDatabase None (exampleProject, exampleFs)))) of
         Some doc' \<Rightarrow> length (getElementsByTagName (ItemGroup exampleConstants) doc') = 4
       | None \<Rightarrow> False)"
  by (simp add: add_reference_defs example_defs Let_def)

text \<open>
  Claim C8, amended: \<^verbatim>\<open>addDatabaseReference\<close> always creates a new item group, appends it
  as the last child of the root and puts the reference element into it as its only child,
  whether or not the document already has item groups; the children that the root had
  stay as they were.
\<close>

theorem addDatabaseReference_new_group:
  assumes "projFileXmlDoc P = Some (Element g as cs)"
    and "addDatabaseReference H K uri loc nm (P, fs) = (Inr u, P', fs')"
  shows "\<exists>r. projFileXmlDoc P' = Some (Element g as (cs @ [Element (ItemGroup K) [] [r]]))
           \<and> hasTag (ArtifactReference K) r"
  using addDatabaseReference_document [OF assms(1,2)]
  by (simp add: referenceNode_shape)

theorem addDatabaseReference_new_group_witness:
  "\<exists>r. projFileXmlDoc (fst (snd (addDatabaseReference exampleHost exampleConstants
              ''/ref/same.dacpac'' sameDatabase (Some ''same'') (exampleProject, exampleFs)))) =
          Some (Element ''Project'' []
                  (childNodes exampleDoc @ [Element ''ItemGroup'' [] [r]]))
        \<and> hasTag ''ArtifactReference'' r"
proof -
  obtain x P' fs' where res:
    "addDatabaseReference exampleHost exampleConstants ''/ref/same.dacpac''
       sameDatabase (Some ''same'') (exampleProject, exampleFs) = (x, P', fs')"
    by (metis prod_cases3)
  with example_addDatabaseReference [of "''/ref/same.dacpac''" sameDatabase "Some ''same''"]
  have ok: "addDatabaseReference exampleHost exampleConstants ''/ref/same.dacpac''
       sameDatabase (Some ''same'') (exampleProject, exampleFs) = (Inr (), P', fs')"
    by simp
  have doc: "projFileXmlDoc exampleProject = Some (Element ''Project'' [] (childNodes exampleDoc))"
    by (simp add: example_defs)
  from addDatabaseReference_new_group [OF doc ok] ok show ?thesis
    by (auto simp: exampleConstants_def)
qed

section \<open>The target platform of a project\<close>

text \<open>
  Claim C3, as the specification states it: the resolution of the platform fails with the
  invalid-schema-provider error for every string that does not have the fixed prefix and
  the fixed suffix. \<^verbatim>\<open>getMasterDacpac\<close> cuts as many characters as the prefix and the suffix
  have and never compares them: a string with other characters of the same lengths around
  \<^verbatim>\<open>130\<close> is accepted.
\<close>

theorem getMasterDacpac_counterexample:
  "take (length (MicrosoftDatatoolsSchemaSqlSql exampleConstants)) disguisedDsp
     \<noteq> MicrosoftDatatoolsSchemaSqlSql exampleConstants
   \<and> getMasterDacpac exampleHost exampleConstants disguisedProject
       = Inr ''$(NETCoreTargetsPath)/SystemDacpacs/130/master.dacpac''
   \<and> getMasterDacpac exampleHost exampleConstants disguisedProject \<noteq> Inl InvalidSchemaProvider"
  by (simp add: getMasterDacpac_def disguisedProject_def disguisedDsp_def example_defs
      document_getElementsByTagName_def TargetPlatform_values_eq)

text \<open>
  Claim C3, amended. For a project whose document has one schema provider element with
  one text child: the string made of the prefix, \<^verbatim>\<open>130\<close> and the suffix resolves to the
  platform \<^verbatim>\<open>130\<close> (the path of its master dacpac); the string made of the prefix, \<^verbatim>\<open>999\<close>
  and the suffix, and every string made of the prefix, a token outside the enumerated
  platform values and the suffix, fails with the invalid-schema-provider error; and in
  general the outcome depends only on what is left of the string after as many leading
  characters as the prefix has and as many trailing characters as the suffix has are cut:
  success when that rest is one of the platform values, the invalid-schema-provider error
  otherwise.
\<close>

theorem getMasterDacpac_version:
  assumes "projFileXmlDoc P = Some doc"
    and "document_getElementsByTagName (DSP K) doc = [d]"
    and "childNodes d = [Text dsp]"
  shows "(dsp = MicrosoftDatatoolsSchemaSqlSql K @ ''130'' @ databaseSchemaProvider K \<longrightarrow>
            getMasterDacpac H K P =
              Inr (path_join H [''$(NETCoreTargetsPath)'', ''SystemDacpacs'', ''130'', ''master.dacpac'']))
       \<and> (dsp = MicrosoftDatatoolsSchemaSqlSql K @ ''999'' @ databaseSchemaProvider K \<longrightarrow>
            getMasterDacpac H K P = Inl InvalidSchemaProvider)
       \<and> (\<forall>v. dsp = MicrosoftDatatoolsSchemaSqlSql K @ v @ databaseSchemaProvider K \<longrightarrow>
            v \<notin> set TargetPlatform_values \<longrightarrow> getMasterDacpac H K P = Inl InvalidSchemaProvider)
       \<and> (\<forall>v. take (length (drop (length (MicrosoftDatatoolsSchemaSqlSql K)) dsp)
                      - length (databaseSchemaProvider K))
                  (drop (length (MicrosoftDatatoolsSchemaSqlSql K)) dsp) = v \<longrightarrow>
              getMasterDacpac H K P =
                (if v \<in> set TargetPlatform_values
                 then Inr (path_join H [''$(NETCoreTargetsPath)'', ''SystemDacpacs'', v, ''master.dacpac''])
                 else Inl InvalidSchemaProvider))"
  unfolding getMasterDacpac_text [OF assms]
  by (auto simp: Let_def TargetPlatform_values_eq)

theorem getMasterDacpac_version_witness:
  "getMasterDacpac exampleHost exampleConstants exampleProject =
     Inr (path_join exampleHost [''$(NETCoreTargetsPath)'', ''SystemDacpacs'', ''130'', ''master.dacpac''])"
proof -
  have doc: "projFileXmlDoc exampleProject = Some exampleDoc"
    by (simp add: exampleProject_def)
  have dsp: "document_getElementsByTagName (DSP exampleConstants) exampleDoc =
               [Element ''DSP'' [] [Text ''Microsoft.Data.Tools.Schema.Sql.Sql130DatabaseSchemaProvider'']]"
    by (simp add: document_getElementsByTagName_def example_defs)
  have ch: "childNodes (Element ''DSP'' [] [Text ''Microsoft.Data.Tools.Schema.Sql.Sql130DatabaseSchemaProvider''])
              = [Text ''Microsoft.Data.Tools.Schema.Sql.Sql130DatabaseSchemaProvider'']"
    by simp
  have eq: "''Microsoft.Data.Tools.Schema.Sql.Sql130DatabaseSchemaProvider'' =
              MicrosoftDatatoolsSchemaSqlSql exampleConstants @ ''130'' @ databaseSchemaProvider exampleConstants"
    by (simp add: exampleConstants_def)
  from getMasterDacpac_version [OF doc dsp ch, of exampleHost] eq show ?thesis by blast
qed

section \<open>Reading a variable without a default value\<close>

text \<open>
  Claim C6, as the specification states it: a variable declaration without its default
  value makes the load fail with the typed error \<open>MissingDefaultValue\<close>. The load does
  fail, with the \<open>TypeError\<close> of the property read on \<^verbatim>\<open>undefined\<close>.
\<close>

theorem readProjFile_missing_default_counterexample:
  "fst (readProjFile exampleHost exampleConstants (newProject ''/db/db.sqlproj'', brokenFs)) = Inl TypeError
   \<and> fst (readProjFile exampleHost exampleConstants (newProject ''/db/db.sqlproj'', brokenFs))
       \<noteq> Inl MissingDefaultValue"
  by (simp add: readProjFile_def readFile_def brokenFs_def newProject_def example_parse
      brokenDoc_def exampleConstants_def Let_def)

text \<open>
  Claim C6, amended. For every project file that can be read and parsed and in whose
  document some variable declaration has no default-value element below it, or has a first
  default-value element without a child node, \<^verbatim>\<open>readProjFile\<close> fails, and the failure is the
  \<open>TypeError\<close> of the runtime.
\<close>

theorem readProjFile_missing_default:
  assumes "fs (projectFilePath P) = Some (FsFile text)"
    and "parseFromString H text = Some doc"
    and "(p, sqlCmdVar) \<in> set (getElementsByTagName (SqlCmdVariable K) doc)"
    and "missingDefault K sqlCmdVar"
  shows "fst (readProjFile H K (P, fs)) = Inl TypeError"
proof -
  have "\<exists>v \<in> set (map snd (getElementsByTagName (SqlCmdVariable K) doc)). missingDefault K v"
    using assms(3,4) by force
  from readSqlCmdVariables_missing [OF this]
  have "\<And>m. \<exists>vars. readSqlCmdVariables K
          (map snd (getElementsByTagName (SqlCmdVariable K) doc)) m = (Inl TypeError, vars)"
    by (metis prod.collapse)
  then obtain vars where
    "readSqlCmdVariables K (map snd (getElementsByTagName (SqlCmdVariable K) doc))
       (sqlCmdVariables P) = (Inl TypeError, vars)"
    by blast
  with assms(1,2) show ?thesis
    by (simp add: readProjFile_def readFile_def Let_def)
qed

theorem readProjFile_missing_default_witness:
  "fst (readProjFile exampleHost exampleConstants (newProject ''/db/db.sqlproj'', brokenFs)) = Inl TypeError"
proof -
  have f: "brokenFs (projectFilePath (newProject ''/db/db.sqlproj'')) = Some (FsFile brokenText)"
    by (simp add: brokenFs_def newProject_def)
  have p: "parseFromString exampleHost brokenText = Some brokenDoc"
    by (rule example_parse)
  have m: "([0, 0], Element ''SqlCmdVariable'' [(''Include'', ''Env'')] [])
             \<in> set (getElementsByTagName (SqlCmdVariable exampleConstants) brokenDoc)"
    by (simp add: brokenDoc_def exampleConstants_def)
  have d: "missingDefault exampleConstants (Element ''SqlCmdVariable'' [(''Include'', ''Env'')] [])"
    by (simp add: missingDefault_def)
  from readProjFile_missing_default
         [where fs = brokenFs and P = "newProject ''/db/db.sqlproj''" and H = exampleHost
            and K = exampleConstants, OF f p m d]
  show ?thesis .
qed

section \<open>Adding a folder\<close>

text \<open>
  Claim C1. A successful \<^verbatim>\<open>addFolderItem\<close> is to append one folder element to the item
  group that the lookup selects, one entry to \<open>files\<close>, and to leave every other element
  of the document alone. The case of a folder in \<^verbatim>\<open>addToProjFile\<close> has no \<^verbatim>\<open>break\<close>, unlike the
  case of a file before it, and runs on into the case of a database reference: on the
  example project the call with the folder \<^verbatim>\<open>Views\<close> appends the folder element to the
  group that holds the folder \<^verbatim>\<open>Tables\<close>, and it also appends a new item group with a
  reference element for the path of the folder.
\<close>

theorem addFolderItem_adds_reference:
  "fst (addFolderItem exampleHost exampleConstants ''Views'' (exampleProject, exampleFs)) =
     Inr \<lparr>fsUri = ''/db/Views'', relativePath = ''Views'', type = EntryType.Folder,
          databaseLocation = None, name = None\<rparr>
   \<and> projFileXmlDoc (fst (snd (addFolderItem exampleHost exampleConstants ''Views''
          (exampleProject, exampleFs)))) =
       Some (Element ''Project'' []
         [Element ''PropertyGroup'' []
            [Element ''DSP'' []
               [Text ''Microsoft.Data.Tools.Schema.Sql.Sql130DatabaseSchemaProvider'']],
          Element ''ItemGroup'' []
            [Element ''Folder'' [(''Include'', ''Tables'')] [],
             Element ''Folder'' [(''Include'', ''Views'')] []],
          Element ''ItemGroup'' [] [Element ''Build'' [(''Include'', ''Tables/a.sql'')] []],
          Element ''ItemGroup'' []
            [Element ''SqlCmdVariable'' [(''Include'', ''Env'')]
               [Element ''DefaultValue'' [] [Text ''dev'']]],
          Element ''Import''
            [(''Condition'', ''$(SQLDBExtensionsRefPath) != empty''),
             (''Project'', ''$(SQLDBExtensionsRefPath)/SqlTasks.targets'')] [],
          Element ''Import''
            [(''Condition'', ''$(SQLDBExtensionsRefPath) == empty''),
             (''Project'', ''$(MSBuildExtensionsPath)/SSDT/SqlTasks.targets'')] [],
          Element ''ItemGroup'' []
            [Element ''ArtifactReference''
               [(''Condition'', ''$(NetCoreBuild) == true''), (''Include'', ''/db/Views'')]
               [Element ''SuppressMissingDependenciesErrors'' [] [Text ''False'']]]])"
  by (simp add: add_folder_defs example_defs Let_def)

section \<open>Reading, writing and reading again\<close>






section \<open>The backup of the round-trip update\<close>

text \<open>
  Claim C9. In every run of \<^verbatim>\<open>updateProjectForRoundTrip\<close> the copy to the backup path comes
  first. If the copy fails, the run ends with that failure and the project and the file
  system are what they were. If the copy succeeds, the backup holds the content of the
  project file, the project file is still untouched, and the later steps start from
  there. And whatever the outcome of the run: if the project file or the document in
  memory was changed at all, then the project file existed and the backup holds its
  original content.
\<close>

theorem updateProjectForRoundTrip_backup_first:
  "(\<forall>e fs1. copyFile (projectFilePath P) (projectFilePath P @ ''_backup'') fs = (Inl e, fs1) \<longrightarrow>
       updateProjectForRoundTrip H K (P, fs) = (Inl e, P, fs))
   \<and> (\<forall>fs1. copyFile (projectFilePath P) (projectFilePath P @ ''_backup'') fs = (Inr (), fs1) \<longrightarrow>
         fs1 (projectFilePath P @ ''_backup'') = fs (projectFilePath P)
         \<and> fs1 (projectFilePath P) = fs (projectFilePath P)
         \<and> updateProjectForRoundTrip H K (P, fs) =
             (case updateImportToSupportRoundTrip H K (P, fs1) of
                (Inl e, s2) \<Rightarrow> (Inl e, s2)
              | (Inr u, s2) \<Rightarrow> updatePackageReferenceInProjFile H K s2))
   \<and> (\<forall>r P' fs'. updateProjectForRoundTrip H K (P, fs) = (r, P', fs') \<longrightarrow>
         (fs' (projectFilePath P) \<noteq> fs (projectFilePath P) \<or> projFileXmlDoc P' \<noteq> projFileXmlDoc P) \<longrightarrow>
         (\<exists>c. fs (projectFilePath P) = Some (FsFile c))
         \<and> fs' (projectFilePath P @ ''_backup'') = fs (projectFilePath P))"
proof (intro conjI allI impI)
  fix e fs1
  assume "copyFile (projectFilePath P) (projectFilePath P @ ''_backup'') fs = (Inl e, fs1)"
  then show "updateProjectForRoundTrip H K (P, fs) = (Inl e, P, fs)"
    by (auto simp: updateProjectForRoundTrip_def copyFile_cases
        split: option.splits fsentry.splits if_splits)
next
  fix fs1
  assume c: "copyFile (projectFilePath P) (projectFilePath P @ ''_backup'') fs = (Inr (), fs1)"
  then show "fs1 (projectFilePath P @ ''_backup'') = fs (projectFilePath P)"
    by (auto simp: copyFile_cases split: option.splits fsentry.splits if_splits)
  from c show "fs1 (projectFilePath P) = fs (projectFilePath P)"
    by (auto simp: copyFile_cases split: option.splits fsentry.splits if_splits)
  from c show "updateProjectForRoundTrip H K (P, fs) =
        (case updateImportToSupportRoundTrip H K (P, fs1) of
           (Inl e, s2) \<Rightarrow> (Inl e, s2)
         | (Inr u, s2) \<Rightarrow> updatePackageReferenceInProjFile H K s2)"
    by (simp add: updateProjectForRoundTrip_def)
next
  fix r P' fs'
  assume run: "updateProjectForRoundTrip H K (P, fs) = (r, P', fs')"
    and changed: "fs' (projectFilePath P) \<noteq> fs (projectFilePath P) \<or> projFileXmlDoc P' \<noteq> projFileXmlDoc P"
  obtain rc fs1 where c: "copyFile (projectFilePath P) (projectFilePath P @ ''_backup'') fs = (rc, fs1)"
    by (cases "copyFile (projectFilePath P) (projectFilePath P @ ''_backup'') fs")
  have ok: "rc = Inr ()"
  proof (cases rc)
    case (Inl e)
    with c run changed show ?thesis
      by (auto simp: updateProjectForRoundTrip_def copyFile_cases
          split: option.splits fsentry.splits if_splits)
  next
    case (Inr u)
    then show ?thesis by simp
  qed
  from c ok obtain content where orig: "fs (projectFilePath P) = Some (FsFile content)"
    and fs1: "fs1 = fs(projectFilePath P @ ''_backup'' \<mapsto> FsFile content)"
    by (auto simp: copyFile_cases split: option.splits fsentry.splits if_splits)
  have "writesProjectFileOnly (P, fs1) (P', fs')"
  proof -
    obtain r2 s2 where i: "updateImportToSupportRoundTrip H K (P, fs1) = (r2, s2)"
      by (cases "updateImportToSupportRoundTrip H K (P, fs1)")
    from updateImportToSupportRoundTrip_frame [OF i] have f2: "writesProjectFileOnly (P, fs1) s2" .
    show ?thesis
    proof (cases r2)
      case (Inl e)
      with run c ok i f2 show ?thesis by (simp add: updateProjectForRoundTrip_def)
    next
      case (Inr u)
      with run c ok i have "updatePackageReferenceInProjFile H K s2 = (r, P', fs')"
        by (simp add: updateProjectForRoundTrip_def)
      from updatePackageReference_frame [OF this] f2 show ?thesis
        by (blast intro: writesProjectFileOnly_trans)
    qed
  qed
  then have "fs' (projectFilePath P @ ''_backup'') = fs1 (projectFilePath P @ ''_backup'')"
    by (simp add: writesProjectFileOnly_def)
  with orig fs1 show "fs' (projectFilePath P @ ''_backup'') = fs (projectFilePath P)"
    by simp
  from orig show "\<exists>c. fs (projectFilePath P) = Some (FsFile c)"
    by blast
qed

theorem updateProjectForRoundTrip_backup_first_witness:
  "copyFile (projectFilePath exampleProject) (projectFilePath exampleProject @ ''_backup'') blockedFs
     = (Inl IOError, blockedFs)
   \<and> updateProjectForRoundTrip exampleHost exampleConstants (exampleProject, blockedFs)
       = (Inl IOError, exampleProject, blockedFs)"
proof -
  have c: "copyFile (projectFilePath exampleProject) (projectFilePath exampleProject @ ''_backup'') blockedFs
     = (Inl IOError, blockedFs)"
    by (simp add: copyFile_cases blockedFs_def exampleFs_def exampleProject_def newProject_def)
  from updateProjectForRoundTrip_backup_first [of exampleProject blockedFs exampleHost exampleConstants] c
  show ?thesis by blast
qed

section \<open>The round-trip update of a project with the two legacy imports\<close>

subsection \<open>Elements by tag name under replacement and appending\<close>

lemma getAttribute_attributesOf:
  "getAttribute n a = (case map_of (attributesOf n) a of Some v \<Rightarrow> v | None \<Rightarrow> [])"
  by (cases n) simp_all

lemma hasTag_element: "hasTag t n \<Longrightarrow> elementAt [] n"
  by (cases n) simp_all

lemma elementsOfChildren_range:
  "(p, m) \<in> set (elementsOfChildren t i cs) \<Longrightarrow>
     \<exists>k q. p = k # q \<and> i \<le> k \<and> k < i + length cs"
proof (induction cs arbitrary: i)
  case Nil
  then show ?case by simp
next
  case (Cons c cs)
  from Cons.prems consider
    (self) "p = [i]"
    | (below) q where "p = i # q"
    | (rest) "(p, m) \<in> set (elementsOfChildren t (Suc i) cs)"
    by (auto split: if_splits)
  then show ?case
  proof cases
    case self
    then show ?thesis by simp
  next
    case below
    then show ?thesis by simp
  next
    case rest
    from Cons.IH [OF rest] show ?thesis by auto
  qed
qed

lemma elements_elementAt:
  "(p, m) \<in> set (getElementsByTagName t e) \<Longrightarrow> elementAt p e"
  "(p, m) \<in> set (elementsOfChildren t i cs) \<Longrightarrow>
     \<exists>k q. p = k # q \<and> i \<le> k \<and> k - i < length cs \<and> elementAt q (cs ! (k - i))"
proof (induction t e and t i cs arbitrary: p m and p m
    rule: getElementsByTagName_elementsOfChildren.induct)
  case (1 t s)
  then show ?case by simp
next
  case (2 t g as cs)
  from "2.prems" have "(p, m) \<in> set (elementsOfChildren t 0 cs)" by simp
  from "2.IH" [OF this] show ?case by auto
next
  case (3 t i)
  then show ?case by simp
next
  case (4 t i c cs)
  from "4.prems" consider
    (self) "hasTag t c" "p = [i]"
    | (below) q where "p = i # q" "(q, m) \<in> set (getElementsByTagName t c)"
    | (rest) "(p, m) \<in> set (elementsOfChildren t (Suc i) cs)"
    by (auto split: if_splits)
  then show ?case
  proof cases
    case self
    then show ?thesis by (simp add: hasTag_element)
  next
    case below
    with "4.IH"(1) show ?thesis by simp
  next
    case rest
    from "4.IH"(2) [OF rest] obtain k q where
      "p = k # q" "Suc i \<le> k" "k - Suc i < length cs" "elementAt q (cs ! (k - Suc i))"
      by blast
    then show ?thesis by (auto simp: Suc_diff_le nth_Cons')
  qed
qed

text \<open>Replacing a child that is an element without children by another such element.\<close>

lemma elementsOfChildren_replace_same:
  assumes j: "j < length cs"
    and old: "hasTag t (cs ! j)" "getElementsByTagName t (cs ! j) = []"
    and new: "hasTag t new" "getElementsByTagName t new = []"
  shows "elementsOfChildren t 0 (cs[j := new]) =
           map (\<lambda>(p, m). if p = [j] then (p, new) else (p, m)) (elementsOfChildren t 0 cs)"
proof -
  let ?f = "\<lambda>(p, m). if p = [j] then (p, new) else (p, m)"
  let ?A = "elementsOfChildren t 0 (take j cs)"
  let ?B = "elementsOfChildren t (Suc j) (drop (Suc j) cs)"
  have A: "map ?f ?A = ?A"
  proof (rule map_idI)
    fix x assume in_list: "x \<in> set ?A"
    obtain p m where x: "x = (p, m)" by (cases x)
    with in_list have mem: "(p, m) \<in> set ?A" by simp
    from elementsOfChildren_range [OF mem] j have "p \<noteq> [j]" by auto
    with x show "?f x = x" by simp
  qed
  have B: "map ?f ?B = ?B"
  proof (rule map_idI)
    fix x assume in_list: "x \<in> set ?B"
    obtain p m where x: "x = (p, m)" by (cases x)
    with in_list have mem: "(p, m) \<in> set ?B" by simp
    from elementsOfChildren_range [OF mem] have "p \<noteq> [j]" by auto
    with x show "?f x = x" by simp
  qed
  have "elementsOfChildren t 0 cs = ?A @ [([j], cs ! j)] @ ?B"
    using elementsOfChildren_split [OF j, of t 0] old by simp
  moreover have "elementsOfChildren t 0 (cs[j := new]) = ?A @ [([j], new)] @ ?B"
    using elementsOfChildren_update [OF j, of t 0 new] new by simp
  ultimately show ?thesis using A B by simp
qed

lemma elementsOfChildren_replace_other:
  assumes j: "j < length cs"
    and old: "\<not> hasTag t (cs ! j)" "getElementsByTagName t (cs ! j) = []"
    and new: "\<not> hasTag t new" "getElementsByTagName t new = []"
  shows "elementsOfChildren t 0 (cs[j := new]) = elementsOfChildren t 0 cs"
proof -
  have "elementsOfChildren t 0 cs =
          elementsOfChildren t 0 (take j cs) @ elementsOfChildren t (Suc j) (drop (Suc j) cs)"
    using elementsOfChildren_split [OF j, of t 0] old by simp
  moreover have "elementsOfChildren t 0 (cs[j := new]) =
          elementsOfChildren t 0 (take j cs) @ elementsOfChildren t (Suc j) (drop (Suc j) cs)"
    using elementsOfChildren_update [OF j, of t 0 new] new by simp
  ultimately show ?thesis by simp
qed

text \<open>Appending a child somewhere in the tree.\<close>

lemma appendChildAt_hasTag: "hasTag t (appendChildAt p c n) = hasTag t n"
  by (cases n; cases p) simp_all

lemma appendChildAt_attributesOf: "attributesOf (appendChildAt p c n) = attributesOf n"
  by (cases n; cases p) simp_all

lemma appendChildAt_attributes_view:
  "\<not> hasTag t c \<Longrightarrow> getElementsByTagName t c = [] \<Longrightarrow>
     map (\<lambda>(q, m). (q, attributesOf m)) (getElementsByTagName t (appendChildAt p c n)) =
     map (\<lambda>(q, m). (q, attributesOf m)) (getElementsByTagName t n)"
proof (induction p c n rule: appendChildAt.induct)
  case (1 c n)
  then show ?case
    by (cases n) (simp_all add: elementsOfChildren_append)
next
  case (2 i p c g as cs)
  show ?case
  proof (cases "i < length cs")
    case False
    then show ?thesis by simp
  next
    case True
    let ?x = "appendChildAt p c (cs ! i)"
    have ih: "map (\<lambda>(q, m). (q, attributesOf m)) (getElementsByTagName t ?x) =
              map (\<lambda>(q, m). (q, attributesOf m)) (getElementsByTagName t (cs ! i))"
      using "2.IH" [OF True "2.prems"] .
    have ih': "map ((\<lambda>(q, m). (q, attributesOf m)) \<circ> (\<lambda>(q, m). (i # q, m))) (getElementsByTagName t ?x) =
               map ((\<lambda>(q, m). (q, attributesOf m)) \<circ> (\<lambda>(q, m). (i # q, m))) (getElementsByTagName t (cs ! i))"
    proof -
      have "(\<lambda>(q, m). (q, attributesOf m)) \<circ> (\<lambda>(q, m). (i # q, m)) =
            (\<lambda>(q, a). (i # q, a)) \<circ> (\<lambda>(q, m). (q, attributesOf m))"
        by (auto simp: fun_eq_iff)
      then show ?thesis using arg_cong [OF ih, of "map (\<lambda>(q, a). (i # q, a))"] by simp
    qed
    have L: "getElementsByTagName t (Element g as (cs[i := ?x])) =
               elementsOfChildren t 0 (take i cs)
               @ ((if hasTag t ?x then [([i], ?x)] else [])
                  @ map (\<lambda>(q, m). (i # q, m)) (getElementsByTagName t ?x))
               @ elementsOfChildren t (Suc i) (drop (Suc i) cs)"
      using elementsOfChildren_update [OF True, of t 0 ?x] by simp
    have R: "getElementsByTagName t (Element g as cs) =
               elementsOfChildren t 0 (take i cs)
               @ ((if hasTag t (cs ! i) then [([i], cs ! i)] else [])
                  @ map (\<lambda>(q, m). (i # q, m)) (getElementsByTagName t (cs ! i)))
               @ elementsOfChildren t (Suc i) (drop (Suc i) cs)"
      using elementsOfChildren_split [OF True, of t 0] by simp
    let ?view = "map (\<lambda>(q, m). (q, attributesOf m))"
    have "?view (getElementsByTagName t (appendChildAt (i # p) c (Element g as cs))) =
          ?view (getElementsByTagName t (Element g as (cs[i := ?x])))"
      using True by simp
    also have "\<dots> = ?view (elementsOfChildren t 0 (take i cs)
               @ ((if hasTag t (cs ! i) then [([i], cs ! i)] else [])
                  @ map (\<lambda>(q, m). (i # q, m)) (getElementsByTagName t (cs ! i)))
               @ elementsOfChildren t (Suc i) (drop (Suc i) cs))"
      unfolding L using ih'
      by (simp add: appendChildAt_hasTag appendChildAt_attributesOf)
    also have "\<dots> = ?view (getElementsByTagName t (Element g as cs))"
      by (simp only: R)
    finally show ?thesis .
  qed
next
  case (3 i p c s)
  then show ?case by simp
qed


lemma appendChildAt_count:
  "elementAt p n \<Longrightarrow>
     length (getElementsByTagName t (appendChildAt p c n)) =
       length (getElementsByTagName t n) + (if hasTag t c then 1 else 0)
       + length (getElementsByTagName t c)"
proof (induction p c n rule: appendChildAt.induct)
  case (1 c n)
  then show ?case
    by (cases n) (simp_all add: elementsOfChildren_append)
next
  case (2 i p c g as cs)
  from "2.prems" have i: "i < length cs" and at: "elementAt p (cs ! i)" by simp_all
  let ?x = "appendChildAt p c (cs ! i)"
  have ih: "length (getElementsByTagName t ?x) =
              length (getElementsByTagName t (cs ! i)) + (if hasTag t c then 1 else 0)
              + length (getElementsByTagName t c)"
    using "2.IH" [OF i at] .
  have "length (getElementsByTagName t (appendChildAt (i # p) c (Element g as cs))) =
        length (getElementsByTagName t (Element g as (cs[i := ?x])))"
    using i by simp
  also have "\<dots> = length (elementsOfChildren t 0 (take i cs))
        + ((if hasTag t (cs ! i) then 1 else 0) + length (getElementsByTagName t ?x))
        + length (elementsOfChildren t (Suc i) (drop (Suc i) cs))"
    using arg_cong [OF elementsOfChildren_update [OF i, of t 0 ?x], of length]
    by (simp add: appendChildAt_hasTag)
  also have "\<dots> = length (elementsOfChildren t 0 (take i cs))
        + ((if hasTag t (cs ! i) then 1 else 0) + length (getElementsByTagName t (cs ! i)))
        + length (elementsOfChildren t (Suc i) (drop (Suc i) cs))
        + (if hasTag t c then 1 else 0) + length (getElementsByTagName t c)"
    using ih by simp
  also have "\<dots> = length (getElementsByTagName t (Element g as cs))
        + (if hasTag t c then 1 else 0) + length (getElementsByTagName t c)"
    using arg_cong [OF elementsOfChildren_split [OF i, of t 0], of length] by simp
  finally show ?case .
next
  case (3 i p c s)
  then show ?case by simp
qed


lemma serializeToProjFile_ok:
  "fs (projectFilePath P) \<noteq> Some FsDir \<Longrightarrow>
     serializeToProjFile H d (P, fs) =
       (Inr (), P, fs(projectFilePath P \<mapsto> FsFile (serializeToString H d)))"
  by (simp add: serializeToProjFile_def writeFile_cases)

lemma roundTripImport_shape:
  "\<exists>as. roundTripImport K n = Element (Import K) as []"
  by (simp add: roundTripImport_def createElement_def)

lemma roundTripImport_facts:
  "hasTag (Import K) (roundTripImport K n)"
  "getElementsByTagName t (roundTripImport K n) = []"
  "childNodes (roundTripImport K n) = []"
  by (simp_all add: roundTripImport_def createElement_def)

lemma roundTripImport_attributes:
  "Condition K \<noteq> constants.Project K \<Longrightarrow>
     getAttribute (roundTripImport K n) (Condition K) = roundTripCondition K n"
  "getAttribute (roundTripImport K n) (constants.Project K) = getAttribute n (constants.Project K)"
  by (simp_all add: roundTripImport_def createElement_def)

lemma updateImportLoop_end:
  assumes "projFileXmlDoc P = Some doc"
    and "length (getElementsByTagName (Import K) doc) \<le> i"
  shows "updateImportLoop H K i (P, fs) = (Inr (), P, fs)"
  using assms by (subst updateImportLoop.simps) simp

lemma updateImportLoop_step:
  assumes doc: "projFileXmlDoc P = Some (Element g as cs)"
    and i: "i < length (getElementsByTagName (Import K) (Element g as cs))"
    and at: "getElementsByTagName (Import K) (Element g as cs) ! i = ([j], n)"
    and legacy: "presentImport K n \<or> absentImport K n"
    and ne: "SqlDbPresentCondition K \<noteq> SqlDbNotPresentCondition K"
    and w: "fs (projectFilePath P) \<noteq> Some FsDir"
  shows "updateImportLoop H K i (P, fs) =
           updateImportLoop H K (Suc i)
             (P\<lparr>projFileXmlDoc := Some (Element g as (cs[j := roundTripImport K n]))\<rparr>,
              fs(projectFilePath P \<mapsto>
                   FsFile (serializeToString H (Element g as (cs[j := roundTripImport K n])))))"
proof -
  have "([j], n) \<in> set (elementsOfChildren (Import K) 0 cs)"
    using i at by (metis getElementsByTagName.simps(2) nth_mem)
  from elementsOfChildren_child [OF this] have j: "j < length cs" by simp
  from legacy show ?thesis
  proof
    assume pr: "presentImport K n"
    with ne have ab: "getAttribute n (Condition K) \<noteq> SqlDbNotPresentCondition K"
      by (simp add: presentImport_def)
    show ?thesis
      using doc i at j pr ab w
      by (subst updateImportLoop.simps)
         (simp add: presentImport_def updateImportedTargetsToProjFile_def serializeToProjFile_ok
           roundTripImport_def roundTripCondition_def Let_def)
  next
    assume ab: "absentImport K n"
    with ne have pr: "getAttribute n (Condition K) \<noteq> SqlDbPresentCondition K"
      by (simp add: absentImport_def)
    show ?thesis
      using doc i at j pr ab w
      by (subst updateImportLoop.simps)
         (simp add: absentImport_def updateImportedTargetsToProjFile_def serializeToProjFile_ok
           roundTripImport_def roundTripCondition_def Let_def)
  qed
qed

lemma map_fst_shift:
  "map fst (map (\<lambda>(p, n). (i # p, n)) xs) = map ((#) i) (map fst xs)"
  by (induction xs) auto

lemma fst_shift: "fst \<circ> (\<lambda>(p, y). (i # p, y)) = (#) i \<circ> fst"
  by (auto simp: fun_eq_iff)

lemma elements_paths_distinct:
  "distinct (map fst (getElementsByTagName t e))"
  "distinct (map fst (elementsOfChildren t i cs))"
proof (induction t e and t i cs rule: getElementsByTagName_elementsOfChildren.induct)
  case (1 t s)
  show ?case by simp
next
  case (2 t g as cs)
  then show ?case by simp
next
  case (3 t i)
  show ?case by simp
next
  case (4 t i c cs)
  have shifted: "distinct (map ((#) i) (map fst (getElementsByTagName t c)))"
    using "4.IH"(1) by (subst distinct_map) (simp add: inj_on_def)
  have self: "[i] \<notin> set (map ((#) i) (map fst (getElementsByTagName t c)))"
    using elements_path_nonempty(1) [of "[]" _ t c] by fastforce
  have rest: "\<And>p. p \<in> set (map fst (elementsOfChildren t (Suc i) cs)) \<Longrightarrow>
                \<exists>k q. p = k # q \<and> Suc i \<le> k"
    using elementsOfChildren_range [of _ _ t "Suc i" cs] by fastforce
  have r1: "[i] \<notin> set (map fst (elementsOfChildren t (Suc i) cs))"
    using rest by fastforce
  have r2: "set (map ((#) i) (map fst (getElementsByTagName t c)))
              \<inter> set (map fst (elementsOfChildren t (Suc i) cs)) = {}"
    using rest by fastforce
  show ?case
    using shifted self r1 r2 "4.IH"(2)
    by (simp add: fst_shift del: set_map)
qed

subsection \<open>The steps of the update\<close>

lemma attributes_view_getAttribute:
  fixes xs ys :: "(path \<times> node) list"
  assumes "map (\<lambda>(q, m). (q, attributesOf m)) xs = map (\<lambda>(q, m). (q, attributesOf m)) ys"
  shows "map (\<lambda>(p, n). (p, getAttribute n a, getAttribute n b)) xs =
         map (\<lambda>(p, n). (p, getAttribute n a, getAttribute n b)) ys"
proof -
  let ?F = "\<lambda>(q::path, as). (q, (case map_of as a of Some v \<Rightarrow> v | None \<Rightarrow> []),
                                 (case map_of as b of Some v \<Rightarrow> v | None \<Rightarrow> []))"
  have v: "map (\<lambda>(p, n). (p, getAttribute n a, getAttribute n b)) zs =
        map ?F (map (\<lambda>(q, m). (q, attributesOf m)) zs)" for zs
    by (induction zs) (auto simp: getAttribute_attributesOf)
  show ?thesis unfolding v [of xs] v [of ys] assms ..
qed

lemma find_member: "find Q xs = Some x \<Longrightarrow> x \<in> set xs"
  by (induction xs) (auto split: if_splits)

lemma childless_no_elements:
  "childNodes n = [] \<Longrightarrow> getElementsByTagName t n = []"
  by (cases n) simp_all

lemma hasTag_unique: "hasTag t n \<Longrightarrow> t \<noteq> t' \<Longrightarrow> \<not> hasTag t' n"
  by (cases n) auto

lemma findOrCreateItemGroup_cases:
  assumes "findOrCreateItemGroup K tag (Element g as cs) = (doc', gp)"
  shows "elementAt gp doc'
         \<and> (doc' = Element g as cs \<or> doc' = Element g as (cs @ [Element (ItemGroup K) [] []]))"
proof -
  let ?found =
    "case tag of None \<Rightarrow> None
     | Some t \<Rightarrow>
         if t = [] then None
         else find (\<lambda>(p, g). getElementsByTagName t g \<noteq> [])
                (getElementsByTagName (ItemGroup K) (Element g as cs))"
  show ?thesis
  proof (cases ?found)
    case None
    with assms show ?thesis
      by (auto simp: findOrCreateItemGroup_def createElement_def nth_append)
  next
    case (Some a)
    obtain p grp where a: "a = (p, grp)" by (cases a)
    from Some a have "(p, grp) \<in> set (getElementsByTagName (ItemGroup K) (Element g as cs))"
      by (auto split: option.splits if_splits dest: find_member)
    from elements_elementAt(1) [OF this] have "elementAt p (Element g as cs)" .
    with assms Some a show ?thesis
      by (simp add: findOrCreateItemGroup_def)
  qed
qed

lemma updatePackageReference_result:
  assumes "projFileXmlDoc P = Some (Element g as cs)"
    and "fs (projectFilePath P) \<noteq> Some FsDir"
  shows "\<exists>doc0 gp pkg as'.
           pkg = Element (PackageReference K) as' []
           \<and> elementAt gp doc0
           \<and> (doc0 = Element g as cs \<or> doc0 = Element g as (cs @ [Element (ItemGroup K) [] []]))
           \<and> updatePackageReferenceInProjFile H K (P, fs) =
               (Inr (), P\<lparr>projFileXmlDoc := Some (appendChildAt gp pkg doc0)\<rparr>,
                fs(projectFilePath P \<mapsto> FsFile (serializeToString H (appendChildAt gp pkg doc0))))"
proof -
  let ?pkg = "setAttribute (PrivateAssets K) (All K)
                (setAttribute (Version K) (VersionNumber K)
                   (setAttribute (Include K) (NETFrameworkAssembly K)
                      (setAttribute (Condition K) (NetCoreCondition K)
                         (createElement (PackageReference K)))))"
  obtain as' where pkg: "?pkg = Element (PackageReference K) as' []"
    by (simp add: createElement_def)
  obtain doc0 gp where f: "findOrCreateItemGroup K (Some (PackageReference K)) (Element g as cs) = (doc0, gp)"
    by (cases "findOrCreateItemGroup K (Some (PackageReference K)) (Element g as cs)")
  from findOrCreateItemGroup_cases [OF f]
  have c: "elementAt gp doc0"
    "doc0 = Element g as cs \<or> doc0 = Element g as (cs @ [Element (ItemGroup K) [] []])"
    by simp_all
  have "updatePackageReferenceInProjFile H K (P, fs) =
               (Inr (), P\<lparr>projFileXmlDoc := Some (appendChildAt gp ?pkg doc0)\<rparr>,
                fs(projectFilePath P \<mapsto> FsFile (serializeToString H (appendChildAt gp ?pkg doc0))))"
    using assms f
    by (simp add: updatePackageReferenceInProjFile_def Let_def serializeToProjFile_ok)
  with c pkg show ?thesis by metis
qed

lemma netCoreImport_shape:
  "\<exists>as'. setAttribute (constants.Project K) v (setAttribute (Condition K) c (createElement (Import K)))
           = Element (Import K) as' []"
  by (simp add: createElement_def)

lemma updateImportedTargets_append:
  assumes "projFileXmlDoc P = Some (Element g as cs)"
    and "fs (projectFilePath P) \<noteq> Some FsDir"
  shows "updateImportedTargetsToProjFile H K c v None (P, fs) =
           (Inr (),
            P\<lparr>projFileXmlDoc := Some (Element g as (cs @
                   [setAttribute (constants.Project K) v
                      (setAttribute (Condition K) c (createElement (Import K)))])),
              importedTargets := importedTargets P @ [v]\<rparr>,
            fs(projectFilePath P \<mapsto> FsFile (serializeToString H (Element g as (cs @
                   [setAttribute (constants.Project K) v
                      (setAttribute (Condition K) c (createElement (Import K)))])))))"
  using assms
  by (simp add: updateImportedTargetsToProjFile_def Let_def serializeToProjFile_ok)

lemma updateImportLoop_two:
  assumes doc: "projFileXmlDoc P = Some (Element g as cs)"
    and imps: "getElementsByTagName (Import K) (Element g as cs) = [([j1], n1), ([j2], n2)]"
    and empty: "childNodes n1 = []" "childNodes n2 = []"
    and legacy: "presentImport K n1 \<or> absentImport K n1" "presentImport K n2 \<or> absentImport K n2"
    and conds: "SqlDbPresentCondition K \<noteq> SqlDbNotPresentCondition K"
    and w: "fs (projectFilePath P) \<noteq> Some FsDir"
  shows "updateImportLoop H K 0 (P, fs) =
           (Inr (),
            P\<lparr>projFileXmlDoc :=
                Some (Element g as (cs[j1 := roundTripImport K n1, j2 := roundTripImport K n2]))\<rparr>,
            fs(projectFilePath P \<mapsto> FsFile (serializeToString H
                 (Element g as (cs[j1 := roundTripImport K n1, j2 := roundTripImport K n2])))))"
    and "getElementsByTagName (Import K)
           (Element g as (cs[j1 := roundTripImport K n1, j2 := roundTripImport K n2])) =
           [([j1], roundTripImport K n1), ([j2], roundTripImport K n2)]"
    and "getElementsByTagName t (Element g as (cs[j1 := roundTripImport K n1, j2 := roundTripImport K n2])) =
           (if t = Import K then [([j1], roundTripImport K n1), ([j2], roundTripImport K n2)]
            else getElementsByTagName t (Element g as cs))"
proof -
  let ?t = "Import K"
  let ?r1 = "roundTripImport K n1" and ?r2 = "roundTripImport K n2"
  let ?cs1 = "cs[j1 := ?r1]"
  let ?cs2 = "?cs1[j2 := ?r2]"
  have mem1: "([j1], n1) \<in> set (elementsOfChildren ?t 0 cs)"
    and mem2: "([j2], n2) \<in> set (elementsOfChildren ?t 0 cs)"
    using imps by simp_all
  from elementsOfChildren_child [OF mem1]
  have j1: "j1 < length cs" "cs ! j1 = n1" "hasTag ?t n1" by simp_all
  from elementsOfChildren_child [OF mem2]
  have j2: "j2 < length cs" "cs ! j2 = n2" "hasTag ?t n2" by simp_all
  have d: "j1 \<noteq> j2"
    using elements_paths_distinct(1) [of ?t "Element g as cs"] imps by simp
  have e1: "getElementsByTagName u n1 = []" for u
    using empty(1) by (rule childless_no_elements)
  have e2: "getElementsByTagName u n2 = []" for u
    using empty(2) by (rule childless_no_elements)
  have imports1: "getElementsByTagName ?t (Element g as ?cs1) = [([j1], ?r1), ([j2], n2)]"
    using elementsOfChildren_replace_same [OF j1(1), of ?t ?r1] j1 e1 imps d
    by (simp add: roundTripImport_facts)
  have cs1: "j2 < length ?cs1" "?cs1 ! j2 = n2"
    using j2 d by simp_all
  have imports2: "getElementsByTagName ?t (Element g as ?cs2) = [([j1], ?r1), ([j2], ?r2)]"
    using elementsOfChildren_replace_same [OF cs1(1), of ?t ?r2] cs1 j2 e2 imports1 d
    by (simp add: roundTripImport_facts)
  show "getElementsByTagName ?t (Element g as ?cs2) = [([j1], ?r1), ([j2], ?r2)]"
    by (fact imports2)
  show "getElementsByTagName t (Element g as ?cs2) =
           (if t = Import K then [([j1], ?r1), ([j2], ?r2)]
            else getElementsByTagName t (Element g as cs))"
  proof (cases "t = Import K")
    case True
    with imports2 show ?thesis by simp
  next
    case False
    then have nt: "\<not> hasTag t n1" "\<not> hasTag t n2" "\<not> hasTag t ?r1" "\<not> hasTag t ?r2"
      using j1(3) j2(3) roundTripImport_facts(1) [of K] by (auto dest: hasTag_unique)
    have "elementsOfChildren t 0 ?cs1 = elementsOfChildren t 0 cs"
      using elementsOfChildren_replace_other [OF j1(1), of t ?r1] j1 nt e1
      by (simp add: roundTripImport_facts)
    moreover have "elementsOfChildren t 0 ?cs2 = elementsOfChildren t 0 ?cs1"
      using elementsOfChildren_replace_other [OF cs1(1), of t ?r2] cs1 nt e2
      by (simp add: roundTripImport_facts)
    ultimately show ?thesis using False by simp
  qed
  let ?P1 = "P\<lparr>projFileXmlDoc := Some (Element g as ?cs1)\<rparr>"
  let ?fs1 = "fs(projectFilePath P \<mapsto> FsFile (serializeToString H (Element g as ?cs1)))"
  have step0: "updateImportLoop H K 0 (P, fs) = updateImportLoop H K (Suc 0) (?P1, ?fs1)"
    using updateImportLoop_step [of P g as cs 0 K j1 n1 fs H] doc imps legacy(1) conds w by simp
  have step1: "updateImportLoop H K (Suc 0) (?P1, ?fs1) =
        updateImportLoop H K (Suc (Suc 0))
          (?P1\<lparr>projFileXmlDoc := Some (Element g as ?cs2)\<rparr>,
           ?fs1(projectFilePath ?P1 \<mapsto> FsFile (serializeToString H (Element g as ?cs2))))"
    using updateImportLoop_step [of ?P1 g as ?cs1 "Suc 0" K j2 n2 ?fs1 H] imports1 legacy(2) conds
    by simp
  have stop: "updateImportLoop H K (Suc (Suc 0))
          (?P1\<lparr>projFileXmlDoc := Some (Element g as ?cs2)\<rparr>,
           ?fs1(projectFilePath ?P1 \<mapsto> FsFile (serializeToString H (Element g as ?cs2)))) =
        (Inr (), ?P1\<lparr>projFileXmlDoc := Some (Element g as ?cs2)\<rparr>,
           ?fs1(projectFilePath ?P1 \<mapsto> FsFile (serializeToString H (Element g as ?cs2))))"
    using imports2 by (intro updateImportLoop_end [where doc = "Element g as ?cs2"]) simp_all
  from step0 step1 stop
  show "updateImportLoop H K 0 (P, fs) =
           (Inr (), P\<lparr>projFileXmlDoc := Some (Element g as ?cs2)\<rparr>,
            fs(projectFilePath P \<mapsto> FsFile (serializeToString H (Element g as ?cs2))))"
    by simp
qed

subsection \<open>The update as a whole\<close>

text \<open>
  Claim C2. The document of the project has exactly two import elements; both are children
  of the root and have no children of their own; one has the condition of the legacy
  schema being present and the path of the legacy targets, the other the condition of the
  legacy schema being absent and the path of the generic build targets. The project file
  exists and the backup path is free for a file. Then \<^verbatim>\<open>updateProjectForRoundTrip\<close>
  succeeds, and in the document it leaves there are exactly three imports: the two
  originals, at their places, with the round-trip condition that belongs to each and with
  their target paths unchanged, and a new last child of the root with the .NET Core
  condition and the .NET Core targets, whose target is also the new last entry of
  \<open>importedTargets\<close>; the document has exactly one package reference element more than
  before; the backup file holds the original content of the project file, and the project
  file holds the serialized document. (The constants that the program compares or uses as
  names are taken to be different strings where the project file vocabulary has different
  names.)
\<close>

theorem updateProjectForRoundTrip_two_imports:
  assumes doc: "projFileXmlDoc P = Some (Element g as cs)"
    and imps: "getElementsByTagName (Import K) (Element g as cs) = [([j1], n1), ([j2], n2)]"
    and empty: "childNodes n1 = []" "childNodes n2 = []"
    and roles: "presentImport K n1 \<and> absentImport K n2 \<or> absentImport K n1 \<and> presentImport K n2"
    and conds: "SqlDbPresentCondition K \<noteq> SqlDbNotPresentCondition K"
    and attrs: "Condition K \<noteq> constants.Project K"
    and tags: "Import K \<noteq> ItemGroup K" "Import K \<noteq> PackageReference K"
      "ItemGroup K \<noteq> PackageReference K"
    and orig: "fs (projectFilePath P) = Some (FsFile original)"
    and backup: "fs (projectFilePath P @ ''_backup'') \<noteq> Some FsDir"
  shows "\<exists>P' fs' doc'.
           updateProjectForRoundTrip H K (P, fs) = (Inr (), P', fs')
           \<and> projFileXmlDoc P' = Some doc'
           \<and> map (\<lambda>(p, n). (p, getAttribute n (Condition K), getAttribute n (constants.Project K)))
                 (getElementsByTagName (Import K) doc') =
               [([j1], roundTripCondition K n1, getAttribute n1 (constants.Project K)),
                ([j2], roundTripCondition K n2, getAttribute n2 (constants.Project K)),
                ([length cs], NetCoreCondition K, NetCoreTargets K)]
           \<and> importedTargets P' = importedTargets P @ [NetCoreTargets K]
           \<and> length (getElementsByTagName (PackageReference K) doc') =
               Suc (length (getElementsByTagName (PackageReference K) (Element g as cs)))
           \<and> fs' (projectFilePath P @ ''_backup'') = Some (FsFile original)
           \<and> fs' (projectFilePath P) = Some (FsFile (serializeToString H doc'))"
proof -
  let ?p = "projectFilePath P"
  let ?b = "projectFilePath P @ ''_backup''"
  let ?I = "Import K" and ?R = "PackageReference K"
  let ?r1 = "roundTripImport K n1" and ?r2 = "roundTripImport K n2"
  let ?cs2 = "cs[j1 := ?r1, j2 := ?r2]"
  let ?nc = "setAttribute (constants.Project K) (NetCoreTargets K)
               (setAttribute (Condition K) (NetCoreCondition K) (createElement (Import K)))"
  let ?cs3 = "?cs2 @ [?nc]"
  let ?view = "map (\<lambda>(p, n). (p, getAttribute n (Condition K), getAttribute n (constants.Project K)))"
  let ?shallow = "map (\<lambda>(q::path, m). (q, attributesOf m))"

  \<comment> \<open>The backup.\<close>
  let ?fs1 = "fs(?b \<mapsto> FsFile original)"
  have copy: "copyFile ?p ?b fs = (Inr (), ?fs1)"
    using orig backup by (simp add: copyFile_cases)
  have w1: "?fs1 ?p \<noteq> Some FsDir"
    using orig by simp

  \<comment> \<open>The loop over the two imports.\<close>
  from roles have legacy: "presentImport K n1 \<or> absentImport K n1" "presentImport K n2 \<or> absentImport K n2"
    by auto
  let ?P2 = "P\<lparr>projFileXmlDoc := Some (Element g as ?cs2)\<rparr>"
  let ?fs2 = "?fs1(?p \<mapsto> FsFile (serializeToString H (Element g as ?cs2)))"
  have loop: "updateImportLoop H K 0 (P, ?fs1) = (Inr (), ?P2, ?fs2)"
    using updateImportLoop_two(1) [where fs = "?fs1" and P = P, OF doc imps empty legacy conds w1] .
  have imports2: "getElementsByTagName ?I (Element g as ?cs2) = [([j1], ?r1), ([j2], ?r2)]"
    using updateImportLoop_two(2) [where fs = "?fs1" and P = P, OF doc imps empty legacy conds w1] .
  have refs2: "getElementsByTagName ?R (Element g as ?cs2) = getElementsByTagName ?R (Element g as cs)"
    using updateImportLoop_two(3) [where fs = "?fs1" and P = P, OF doc imps empty legacy conds w1, of ?R] tags(2) by simp

  \<comment> \<open>The import for .NET Core.\<close>
  obtain as3 where nc: "?nc = Element ?I as3 []"
    using netCoreImport_shape by blast
  let ?P3 = "?P2\<lparr>projFileXmlDoc := Some (Element g as ?cs3),
                   importedTargets := importedTargets ?P2 @ [NetCoreTargets K]\<rparr>"
  let ?fs3 = "?fs2(?p \<mapsto> FsFile (serializeToString H (Element g as ?cs3)))"
  have append: "updateImportedTargetsToProjFile H K (NetCoreCondition K) (NetCoreTargets K) None
                  (?P2, ?fs2) = (Inr (), ?P3, ?fs3)"
    using updateImportedTargets_append [of ?P2 g as ?cs2 ?fs2 H K "NetCoreCondition K" "NetCoreTargets K"]
    by simp
  have support: "updateImportToSupportRoundTrip H K (P, ?fs1) = (Inr (), ?P3, ?fs3)"
    using loop append by (simp add: updateImportToSupportRoundTrip_def)
  have imports3: "getElementsByTagName ?I (Element g as ?cs3) =
                    [([j1], ?r1), ([j2], ?r2), ([length cs], ?nc)]"
    using imports2 by (simp add: elementsOfChildren_append nc)
  have refs3: "length (getElementsByTagName ?R (Element g as ?cs3)) =
                 length (getElementsByTagName ?R (Element g as cs))"
    using refs2 tags(2) by (simp add: elementsOfChildren_append nc)

  \<comment> \<open>The package reference.\<close>
  have doc3: "projFileXmlDoc ?P3 = Some (Element g as ?cs3)" by simp
  have w3: "?fs3 (projectFilePath ?P3) \<noteq> Some FsDir" by simp
  from updatePackageReference_result [where fs = "?fs3" and P = "?P3", OF doc3 w3, of K H]
  obtain doc0 gp pkg as4 where pkg: "pkg = Element ?R as4 []"
    and gp: "elementAt gp doc0"
    and doc0: "doc0 = Element g as ?cs3 \<or> doc0 = Element g as (?cs3 @ [Element (ItemGroup K) [] []])"
    and package: "updatePackageReferenceInProjFile H K (?P3, ?fs3) =
           (Inr (), ?P3\<lparr>projFileXmlDoc := Some (appendChildAt gp pkg doc0)\<rparr>,
            ?fs3(projectFilePath ?P3 \<mapsto> FsFile (serializeToString H (appendChildAt gp pkg doc0))))"
    by blast
  let ?doc4 = "appendChildAt gp pkg doc0"
  let ?P4 = "?P3\<lparr>projFileXmlDoc := Some ?doc4\<rparr>"
  let ?fs4 = "?fs3(projectFilePath ?P3 \<mapsto> FsFile (serializeToString H ?doc4))"
  have run: "updateProjectForRoundTrip H K (P, fs) = (Inr (), ?P4, ?fs4)"
    using copy support package by (simp add: updateProjectForRoundTrip_def)

  have imports0: "getElementsByTagName ?I doc0 = getElementsByTagName ?I (Element g as ?cs3)"
    using doc0 tags(1) by (auto simp: elementsOfChildren_append)
  have refs0: "getElementsByTagName ?R doc0 = getElementsByTagName ?R (Element g as ?cs3)"
    using doc0 tags(3) by (auto simp: elementsOfChildren_append)
  have "?shallow (getElementsByTagName ?I ?doc4) = ?shallow (getElementsByTagName ?I doc0)"
    using appendChildAt_attributes_view [of ?I pkg gp doc0] pkg tags(2) by simp
  from attributes_view_getAttribute [OF this]
  have "?view (getElementsByTagName ?I ?doc4) = ?view (getElementsByTagName ?I doc0)" .
  also have "\<dots> = ?view [([j1], ?r1), ([j2], ?r2), ([length cs], ?nc)]"
    using imports0 imports3 by simp
  also have "\<dots> = [([j1], roundTripCondition K n1, getAttribute n1 (constants.Project K)),
                ([j2], roundTripCondition K n2, getAttribute n2 (constants.Project K)),
                ([length cs], NetCoreCondition K, NetCoreTargets K)]"
    using attrs by (simp add: roundTripImport_attributes createElement_def)
  finally have view: "?view (getElementsByTagName ?I ?doc4) =
               [([j1], roundTripCondition K n1, getAttribute n1 (constants.Project K)),
                ([j2], roundTripCondition K n2, getAttribute n2 (constants.Project K)),
                ([length cs], NetCoreCondition K, NetCoreTargets K)]" .
  have count: "length (getElementsByTagName ?R ?doc4) =
                 Suc (length (getElementsByTagName ?R (Element g as cs)))"
    using appendChildAt_count [OF gp, of ?R pkg] pkg refs0 refs3 by simp
  have b: "?fs4 ?b = Some (FsFile original)" by simp
  have f: "?fs4 ?p = Some (FsFile (serializeToString H ?doc4))" by simp
  have t: "importedTargets ?P4 = importedTargets P @ [NetCoreTargets K]" by simp
  have d4: "projFileXmlDoc ?P4 = Some ?doc4" by simp
  show ?thesis
    by (rule exI [of _ ?P4], rule exI [of _ ?fs4], rule exI [of _ ?doc4])
       (intro conjI run d4 view t count b f)
qed

theorem updateProjectForRoundTrip_two_imports_witness:
  "\<exists>P' fs' doc'.
     updateProjectForRoundTrip exampleHost exampleConstants (exampleProject, exampleFs) = (Inr (), P', fs')
     \<and> projFileXmlDoc P' = Some doc'
     \<and> map (\<lambda>(p, n). (p, getAttribute n ''Condition'', getAttribute n ''Project''))
           (getElementsByTagName ''Import'' doc') =
         [([4], ''$(NetCoreBuild) != true AND $(SQLDBExtensionsRefPath) != empty'',
           ''$(SQLDBExtensionsRefPath)/SqlTasks.targets''),
          ([5], ''$(NetCoreBuild) != true AND $(SQLDBExtensionsRefPath) == empty'',
           ''$(MSBuildExtensionsPath)/SSDT/SqlTasks.targets''),
          ([6], ''$(NetCoreBuild) == true'', ''$(NETCoreTargetsPath)/SqlTasks.targets'')]
     \<and> importedTargets P' = [''$(NETCoreTargetsPath)/SqlTasks.targets'']
     \<and> length (getElementsByTagName ''PackageReference'' doc') = 1
     \<and> fs' ''/db/db.sqlproj_backup'' = Some (FsFile exampleText)"
proof -
  let ?n1 = "Element ''Import''
          [(''Condition'', ''$(SQLDBExtensionsRefPath) != empty''),
           (''Project'', ''$(SQLDBExtensionsRefPath)/SqlTasks.targets'')] []"
  let ?n2 = "Element ''Import''
          [(''Condition'', ''$(SQLDBExtensionsRefPath) == empty''),
           (''Project'', ''$(MSBuildExtensionsPath)/SSDT/SqlTasks.targets'')] []"
  have doc: "projFileXmlDoc exampleProject = Some (Element ''Project'' [] (childNodes exampleDoc))"
    by (simp add: example_defs)
  have imps: "getElementsByTagName (Import exampleConstants) (Element ''Project'' [] (childNodes exampleDoc))
                = [([4], ?n1), ([5], ?n2)]"
    by (simp add: example_defs)
  have empty: "childNodes ?n1 = []" "childNodes ?n2 = []" by simp_all
  have roles: "presentImport exampleConstants ?n1 \<and> absentImport exampleConstants ?n2
               \<or> absentImport exampleConstants ?n1 \<and> presentImport exampleConstants ?n2"
    by (simp add: presentImport_def absentImport_def exampleConstants_def)
  have conds: "SqlDbPresentCondition exampleConstants \<noteq> SqlDbNotPresentCondition exampleConstants"
    by (simp add: exampleConstants_def)
  have attrs: "Condition exampleConstants \<noteq> constants.Project exampleConstants"
    by (simp add: exampleConstants_def)
  have tags: "Import exampleConstants \<noteq> ItemGroup exampleConstants"
    "Import exampleConstants \<noteq> PackageReference exampleConstants"
    "ItemGroup exampleConstants \<noteq> PackageReference exampleConstants"
    by (simp_all add: exampleConstants_def)
  have orig: "exampleFs (projectFilePath exampleProject) = Some (FsFile exampleText)"
    by (simp add: exampleFs_def exampleProject_def newProject_def)
  have backup: "exampleFs (projectFilePath exampleProject @ ''_backup'') \<noteq> Some FsDir"
    by (simp add: exampleFs_def exampleProject_def newProject_def)
  have path: "projectFilePath exampleProject = ''/db/db.sqlproj''"
    and targets: "importedTargets exampleProject = []"
    by (simp_all add: exampleProject_def newProject_def)
  have refs: "getElementsByTagName (PackageReference exampleConstants)
                (Element ''Project'' [] (childNodes exampleDoc)) = []"
    by (simp add: example_defs)
  have rt: "roundTripCondition exampleConstants ?n1 =
              ''$(NetCoreBuild) != true AND $(SQLDBExtensionsRefPath) != empty''"
    "roundTripCondition exampleConstants ?n2 =
              ''$(NetCoreBuild) != true AND $(SQLDBExtensionsRefPath) == empty''"
    by (simp_all add: roundTripCondition_def exampleConstants_def)
  have len: "length (childNodes exampleDoc) = 6" by (simp add: exampleDoc_def)
  from updateProjectForRoundTrip_two_imports
         [where fs = exampleFs and P = exampleProject and H = exampleHost,
          OF doc imps empty roles conds attrs tags orig backup]
  obtain P' fs' doc' where run:
    "updateProjectForRoundTrip exampleHost exampleConstants (exampleProject, exampleFs) = (Inr (), P', fs')"
    and d: "projFileXmlDoc P' = Some doc'"
    and v: "map (\<lambda>(p, n). (p, getAttribute n (Condition exampleConstants),
                        getAttribute n (constants.Project exampleConstants)))
       (getElementsByTagName (Import exampleConstants) doc') =
     [([4], roundTripCondition exampleConstants ?n1, getAttribute ?n1 (constants.Project exampleConstants)),
      ([5], roundTripCondition exampleConstants ?n2, getAttribute ?n2 (constants.Project exampleConstants)),
      ([length (childNodes exampleDoc)], NetCoreCondition exampleConstants, NetCoreTargets exampleConstants)]"
    and t: "importedTargets P' = importedTargets exampleProject @ [NetCoreTargets exampleConstants]"
    and c: "length (getElementsByTagName (PackageReference exampleConstants) doc') =
       Suc (length (getElementsByTagName (PackageReference exampleConstants)
                      (Element ''Project'' [] (childNodes exampleDoc))))"
    and b: "fs' (projectFilePath exampleProject @ ''_backup'') = Some (FsFile exampleText)"
    by (elim exE conjE)
  have k: "Condition exampleConstants = ''Condition''" "constants.Project exampleConstants = ''Project''"
    "Import exampleConstants = ''Import''" "PackageReference exampleConstants = ''PackageReference''"
    "NetCoreCondition exampleConstants = ''$(NetCoreBuild) == true''"
    "NetCoreTargets exampleConstants = ''$(NETCoreTargetsPath)/SqlTasks.targets''"
    by (simp_all add: exampleConstants_def)
  have v': "map (\<lambda>(p, n). (p, getAttribute n ''Condition'', getAttribute n ''Project''))
           (getElementsByTagName ''Import'' doc') =
         [([4], ''$(NetCoreBuild) != true AND $(SQLDBExtensionsRefPath) != empty'',
           ''$(SQLDBExtensionsRefPath)/SqlTasks.targets''),
          ([5], ''$(NetCoreBuild) != true AND $(SQLDBExtensionsRefPath) == empty'',
           ''$(MSBuildExtensionsPath)/SSDT/SqlTasks.targets''),
          ([6], ''$(NetCoreBuild) == true'', ''$(NETCoreTargetsPath)/SqlTasks.targets'')]"
    using v unfolding rt len k by simp
  have t': "importedTargets P' = [''$(NETCoreTargetsPath)/SqlTasks.targets'']"
    using t unfolding targets k by simp
  have c': "length (getElementsByTagName ''PackageReference'' doc') = 1"
    using c [unfolded refs] unfolding k by simp
  have b': "fs' ''/db/db.sqlproj_backup'' = Some (FsFile exampleText)"
    using b unfolding path by simp
  show ?thesis
    by (rule exI [of _ P'], rule exI [of _ fs'], rule exI [of _ doc'])
       (intro conjI run d v' t' c' b')
qed

end
